theory Spec2Isabelle
  imports Main
begin

section \<open>The environment of the two scripts\<close>

text \<open>
  Both scripts are straight-line Python: they change the working directory, test
  whether some paths exist, create one directory and one file, print, and hand command
  strings to \<^verbatim>\<open>subprocess.run(..., shell=True)\<close>. The model threads one process
  state through every statement.

  \<^item> The file tree is a map from path strings to nodes. Paths are compared as strings;
    symbolic links and permissions are not modelled.
  \<^item> Whatever else a child process can read or change (the repository database, for
    instance) is the component \<open>ext\<close>, of an arbitrary type.
  \<^item> The host shell is a parameter: given the command string, the directory the child
    starts in and the world, it either raises (process creation failed, or the output
    could not be decoded) or completes with a return code and the two output texts,
    and it leaves a new world behind. Nothing is assumed about it.
  \<^item> \<open>out\<close> is what the script has written to its standard output, one entry per
    \<^verbatim>\<open>print\<close> call (without the newline that ends it).
  \<^item> \<open>calls\<close> is a history variable: every command string given to \<^verbatim>\<open>subprocess.run\<close>,
    in order.
  \<^item> An exception of the source is the left injection of the result; all exceptions
    modelled derive from Python's \<^verbatim>\<open>Exception\<close>, so \<^verbatim>\<open>except Exception\<close> catches each.
\<close>

datatype node = File string | Dir

datatype pyexn = PyException (exc_class: string) (exc_text: string)

record 'x world =
  fs :: "string \<rightharpoonup> node"
  ext :: 'x

record completed_process =
  returncode :: int
  stdout :: string
  stderr :: string

type_synonym 'x shell =
  "string \<Rightarrow> string \<Rightarrow> 'x world \<Rightarrow> (pyexn + completed_process) \<times> 'x world"

record 'x pstate =
  cwd :: string
  world :: "'x world"
  out :: "string list"
  calls :: "string list"

type_synonym ('x, 'a) py = "'x pstate \<Rightarrow> (pyexn + 'a) \<times> 'x pstate"

subsection \<open>Statements and their sequencing\<close>

definition skip :: "('x, unit) py" where
  "skip s = (Inr (), s)"

definition py_bind :: "('x, 'a) py \<Rightarrow> ('a \<Rightarrow> ('x, 'b) py) \<Rightarrow> ('x, 'b) py" where
  "py_bind p f s = (case p s of (Inl e, s') \<Rightarrow> (Inl e, s') | (Inr v, s') \<Rightarrow> f v s')"

text \<open>An expression statement: the value is dropped, an exception is not.\<close>

definition expr :: "('x, 'a) py \<Rightarrow> ('x, unit) py" where
  "expr p = py_bind p (\<lambda>_. skip)"

text \<open>A sequence of statements stops at the first one that raises.\<close>

fun block :: "('x, unit) py list \<Rightarrow> ('x, unit) py" where
  "block [] s = (Inr (), s)"
| "block (p # ps) s = (case p s of (Inl e, s') \<Rightarrow> (Inl e, s') | (Inr _, s') \<Rightarrow> block ps s')"

text \<open>\<^verbatim>\<open>try: body  except Exception as e: handler\<close>\<close>

definition try_except :: "('x, 'a) py \<Rightarrow> (pyexn \<Rightarrow> ('x, 'a) py) \<Rightarrow> ('x, 'a) py" where
  "try_except body handler s =
     (case body s of (Inl e, s') \<Rightarrow> handler e s' | (Inr v, s') \<Rightarrow> (Inr v, s'))"

definition print :: "string \<Rightarrow> 'x pstate \<Rightarrow> 'x pstate" where
  "print line s = s\<lparr>out := out s @ [line]\<rparr>"

definition say :: "string \<Rightarrow> ('x, unit) py" where
  "say line s = (Inr (), print line s)"

subsection \<open>Paths and the file tree\<close>

definition resolve :: "string \<Rightarrow> string \<Rightarrow> string" where
  "resolve d p = (if take 1 p = ''/'' then p else d @ ''/'' @ p)"

text \<open>\<^verbatim>\<open>posixpath.dirname\<close>: up to the last slash, trailing slashes stripped unless
  nothing else is left.\<close>

definition dirname :: "string \<Rightarrow> string" where
  "dirname p =
     (let head = rev (dropWhile (\<lambda>c. c \<noteq> CHR ''/'') (rev p))
      in if head \<noteq> [] \<and> filter (\<lambda>c. c \<noteq> CHR ''/'') head \<noteq> []
         then rev (dropWhile (\<lambda>c. c = CHR ''/'') (rev head))
         else head)"

text \<open>The text of an \<^verbatim>\<open>OSError\<close>: the error, then the path in quotes.\<close>

definition errno_text :: "string \<Rightarrow> string \<Rightarrow> string" where
  "errno_text msg p = msg @ '': '' @ [CHR 0x27] @ p @ [CHR 0x27]"

definition os_path_exists :: "string \<Rightarrow> 'x pstate \<Rightarrow> bool" where
  "os_path_exists p s = (fs (world s) (resolve (cwd s) p) \<noteq> None)"

definition os_chdir :: "string \<Rightarrow> ('x, unit) py" where
  "os_chdir p s =
     (let a = resolve (cwd s) p in
      case fs (world s) a of
        Some Dir \<Rightarrow> (Inr (), s\<lparr>cwd := a\<rparr>)
      | Some (File _) \<Rightarrow> (Inl (PyException ''NotADirectoryError'' (errno_text ''[Errno 20] Not a directory'' p)), s)
      | None \<Rightarrow> (Inl (PyException ''FileNotFoundError'' (errno_text ''[Errno 2] No such file or directory'' p)), s))"

text \<open>\<^verbatim>\<open>os.makedirs(p, exist_ok=True)\<close> for a name without a directory part, which is
  how the script calls it: one \<^verbatim>\<open>mkdir\<close>, whose failure is ignored when the path is a
  directory already.\<close>

definition os_makedirs :: "string \<Rightarrow> ('x, unit) py" where
  "os_makedirs p s =
     (let a = resolve (cwd s) p in
      case fs (world s) a of
        Some Dir \<Rightarrow> (Inr (), s)
      | Some (File _) \<Rightarrow> (Inl (PyException ''FileExistsError'' (errno_text ''[Errno 17] File exists'' p)), s)
      | None \<Rightarrow>
          (if fs (world s) (dirname a) = Some Dir
           then (Inr (), s\<lparr>world := (world s)\<lparr>fs := (fs (world s))(a \<mapsto> Dir)\<rparr>\<rparr>)
           else (Inl (PyException ''FileNotFoundError'' (errno_text ''[Errno 2] No such file or directory'' p)), s)))"

text \<open>\<^verbatim>\<open>with open(p, 'w') as f: f.write(text)\<close>\<close>

definition open_write :: "string \<Rightarrow> string \<Rightarrow> ('x, unit) py" where
  "open_write p text s =
     (let a = resolve (cwd s) p in
      if fs (world s) a = Some Dir
      then (Inl (PyException ''IsADirectoryError'' (errno_text ''[Errno 21] Is a directory'' p)), s)
      else if fs (world s) (dirname a) = Some Dir
      then (Inr (), s\<lparr>world := (world s)\<lparr>fs := (fs (world s))(a \<mapsto> File text)\<rparr>\<rparr>)
      else (Inl (PyException ''FileNotFoundError'' (errno_text ''[Errno 2] No such file or directory'' p)), s))"

subsection \<open>Child processes\<close>

text \<open>
  \<^verbatim>\<open>subprocess.run(cmd, shell=True, capture_output=capture, cwd=dir)\<close>. Without \<^verbatim>\<open>cwd\<close>
  the child starts in the directory of the script's process. Without
  \<^verbatim>\<open>capture_output\<close> the child writes to the script's own standard output.
\<close>

definition subprocess_run ::
  "'x shell \<Rightarrow> bool \<Rightarrow> string option \<Rightarrow> string \<Rightarrow> ('x, completed_process) py" where
  "subprocess_run sh capture dir cmd s =
     (case sh cmd (case dir of None \<Rightarrow> cwd s | Some d \<Rightarrow> d) (world s) of
        (Inl e, w) \<Rightarrow> (Inl e, s\<lparr>world := w, calls := calls s @ [cmd]\<rparr>)
      | (Inr result, w) \<Rightarrow>
          (Inr result,
           s\<lparr>world := w,
             out := (if capture \<or> stdout result = [] then out s else out s @ [stdout result]),
             calls := calls s @ [cmd]\<rparr>))"

text \<open>Python's \<^verbatim>\<open>str\<close> of an integer and \<^verbatim>\<open>sep.join(xs)\<close>.\<close>

function str_nat :: "nat \<Rightarrow> string" where
  "str_nat n = (if n < 10 then [''0123456789'' ! n] else str_nat (n div 10) @ [''0123456789'' ! (n mod 10)])"
  by pat_completeness auto
termination
  by (relation "measure id") auto

definition str_int :: "int \<Rightarrow> string" where
  "str_int i = (if i < 0 then ''-'' @ str_nat (nat (- i)) else str_nat (nat i))"

fun join :: "string \<Rightarrow> string list \<Rightarrow> string" where
  "join sep [] = []"
| "join sep [x] = x"
| "join sep (x # y # ys) = x @ sep @ join sep (y # ys)"

section \<open>git\_operations.py\<close>

definition repo_path :: string where
  "repo_path = ''/Users/mistergrinvalds/Repos/personal/bash-profile''"

definition run_git_command_try :: "'x shell \<Rightarrow> string \<Rightarrow> ('x, bool) py" where
  "run_git_command_try sh cmd =
     py_bind (subprocess_run sh True None cmd) (\<lambda>result s.
       let s1 = print (''Command: '' @ cmd) s;
           s2 = (if stdout result \<noteq> [] then print (''Output: '' @ stdout result) s1 else s1);
           s3 = (if stderr result \<noteq> [] then print (''Error: '' @ stderr result) s2 else s2);
           s4 = print (replicate 50 CHR ''-'') s3
       in (Inr (returncode result = 0), s4))"

definition run_git_command_except :: "string \<Rightarrow> pyexn \<Rightarrow> ('x, bool) py" where
  "run_git_command_except cmd e s =
     (Inr False,
      print (''Exception running '' @ [CHR 0x27] @ cmd @ [CHR 0x27] @ '': '' @ exc_text e) s)"

definition run_git_command :: "'x shell \<Rightarrow> string \<Rightarrow> ('x, bool) py" where
  "run_git_command sh cmd = try_except (run_git_command_try sh cmd) (run_git_command_except cmd)"

text \<open>\<^verbatim>\<open>f'git commit -m "{commit_msg}"'\<close>\<close>

definition git_commit :: "string \<Rightarrow> string" where
  "git_commit commit_msg = ''git commit -m '' @ [CHR 0x22] @ commit_msg @ [CHR 0x22]"

definition commit_msg1 :: string where
  "commit_msg1 = ''fix: update automation framework core.sh for bash compatibility\<newline>\<newline>- Replace 'function' keyword with POSIX-compliant syntax\<newline>- Ensure compatibility with both bash and sh shells''"

definition commit_msg2 :: string where
  "commit_msg2 = ''fix: replace associative arrays in auto script for POSIX compliance\<newline>\<newline>- Convert bash-specific associative arrays to portable implementation\<newline>- Maintain functionality while ensuring shell compatibility''"

definition commit_msg3 :: string where
  "commit_msg3 = ''feat: add missing .bash_profile.dir directory structure\<newline>\<newline>- Create required directory for modular bash configuration\<newline>- Add .gitkeep to preserve empty directory in git''"

definition commit_msg4 :: string where
  "commit_msg4 = ''feat: add --yes flag to initialize.sh for automated installation\<newline>\<newline>- Support non-interactive installation with --yes flag\<newline>- Maintain backward compatibility with interactive mode''"

definition commit_msg5 :: string where
  "commit_msg5 = ''feat: add yes-to-all support to automation tools module\<newline>\<newline>- Pass through --yes flag from parent scripts\<newline>- Enable fully automated tool installation''"

definition commit_msg6 :: string where
  "commit_msg6 = ''feat: enhance Makefile with new automation targets\<newline>\<newline>- Add targets for automated installation and testing\<newline>- Improve development workflow with convenience commands''"

definition commit_msg7 :: string where
  "commit_msg7 = ''chore: update project configuration files\<newline>\<newline>- Update CLAUDE.md documentation\<newline>- Add npm package configuration for development tools''"

definition check_status :: "'x shell \<Rightarrow> ('x, unit) py" where
  "check_status sh =
     block [say ''=== Checking current git status ==='',
            expr (run_git_command sh ''git status'')]"

definition create_branch :: "'x shell \<Rightarrow> ('x, unit) py" where
  "create_branch sh =
     block [say ''\<newline>=== Creating branch fix/automation-framework-compatibility ==='',
            py_bind (run_git_command sh ''git checkout -b fix/automation-framework-compatibility'') (\<lambda>created.
              if created then say ''Branch created successfully!''
              else block [say ''Failed to create branch. It might already exist.'',
                          expr (run_git_command sh ''git checkout fix/automation-framework-compatibility'')])]"

definition commit1 :: "'x shell \<Rightarrow> ('x, unit) py" where
  "commit1 sh s =
     (if os_path_exists ''.automation/framework/core.sh'' s
      then block [say ''\<newline>=== Commit 1: Bash compatibility fix ==='',
                  expr (run_git_command sh ''git add .automation/framework/core.sh''),
                  expr (run_git_command sh (git_commit commit_msg1))] s
      else skip s)"

definition commit2 :: "'x shell \<Rightarrow> ('x, unit) py" where
  "commit2 sh s =
     (if os_path_exists ''.automation/auto'' s
      then block [say ''\<newline>=== Commit 2: Fix associative array compatibility ==='',
                  expr (run_git_command sh ''git add .automation/auto''),
                  expr (run_git_command sh (git_commit commit_msg2))] s
      else skip s)"

definition commit3 :: "'x shell \<Rightarrow> ('x, unit) py" where
  "commit3 sh s =
     (if \<not> os_path_exists ''.bash_profile.dir'' s
      then block [say ''\<newline>=== Commit 3: Create bash profile directory ==='',
                  os_makedirs ''.bash_profile.dir'',
                  open_write ''.bash_profile.dir/.gitkeep'' '''',
                  expr (run_git_command sh ''git add .bash_profile.dir/''),
                  expr (run_git_command sh (git_commit commit_msg3))] s
      else skip s)"

definition commit4 :: "'x shell \<Rightarrow> ('x, unit) py" where
  "commit4 sh s =
     (if os_path_exists ''initialize.sh'' s
      then block [say ''\<newline>=== Commit 4: Add yes-to-all functionality ==='',
                  expr (run_git_command sh ''git add initialize.sh''),
                  expr (run_git_command sh (git_commit commit_msg4))] s
      else skip s)"

definition commit5 :: "'x shell \<Rightarrow> ('x, unit) py" where
  "commit5 sh s =
     (if os_path_exists ''.automation/modules/tools.sh'' s
      then block [say ''\<newline>=== Commit 5: Update tools module ==='',
                  expr (run_git_command sh ''git add .automation/modules/tools.sh''),
                  expr (run_git_command sh (git_commit commit_msg5))] s
      else skip s)"

definition commit6 :: "'x shell \<Rightarrow> ('x, unit) py" where
  "commit6 sh s =
     (if os_path_exists ''Makefile'' s
      then block [say ''\<newline>=== Commit 6: Add new make targets ==='',
                  expr (run_git_command sh ''git add Makefile''),
                  expr (run_git_command sh (git_commit commit_msg6))] s
      else skip s)"

definition config_files :: "string list" where
  "config_files = [''CLAUDE.md'', ''package.json'', ''package-lock.json'']"

definition files_to_add :: "'x pstate \<Rightarrow> string list" where
  "files_to_add s = filter (\<lambda>f. os_path_exists f s) config_files"

text \<open>The body of \<^verbatim>\<open>if files_to_add:\<close>. The call of \<^verbatim>\<open>git diff\<close> is a direct
  \<^verbatim>\<open>subprocess.run\<close>, outside any \<^verbatim>\<open>try\<close> and without capture.\<close>

definition commit_files_to_add :: "'x shell \<Rightarrow> string list \<Rightarrow> ('x, unit) py" where
  "commit_files_to_add sh to_add =
     block [expr (run_git_command sh (''git add '' @ join '' '' to_add)),
            py_bind (subprocess_run sh False None ''git diff --cached --quiet'')
              (\<lambda>result. if returncode result \<noteq> 0
                         then expr (run_git_command sh (git_commit commit_msg7))
                         else skip)]"

definition commit_config :: "'x shell \<Rightarrow> ('x, unit) py" where
  "commit_config sh =
     block [say ''\<newline>=== Checking for additional project config files ==='',
            (\<lambda>s. if files_to_add s \<noteq> []
                 then commit_files_to_add sh (files_to_add s) s
                 else skip s)]"

definition final_status :: "'x shell \<Rightarrow> ('x, unit) py" where
  "final_status sh =
     block [say ''\<newline>=== Final git status ==='',
            expr (run_git_command sh ''git status''),
            expr (run_git_command sh ''git log --oneline -10''),
            say ''\<newline>=== Operation complete! ==='',
            say ''Branch created and commits made successfully!'',
            say ''You can now push with: git push -u origin fix/automation-framework-compatibility'']"

definition git_operations :: "'x shell \<Rightarrow> ('x, unit) py" where
  "git_operations sh =
     block [os_chdir repo_path,
            check_status sh,
            create_branch sh,
            commit1 sh, commit2 sh, commit3 sh, commit4 sh, commit5 sh, commit6 sh,
            commit_config sh,
            final_status sh]"

section \<open>run\_git\_commands.py\<close>

definition execute_command_try :: "'x shell \<Rightarrow> string \<Rightarrow> ('x, bool) py" where
  "execute_command_try sh cmd =
     py_bind (subprocess_run sh True (Some repo_path) cmd) (\<lambda>result s.
       let s1 = (if stdout result \<noteq> [] then print (stdout result) s else s);
           s2 = (if stderr result \<noteq> [] then print (''STDERR: '' @ stderr result) s1 else s1);
           s3 = print (''Return code: '' @ str_int (returncode result)) s2
       in (Inr (returncode result = 0), s3))"

definition execute_command_except :: "pyexn \<Rightarrow> ('x, bool) py" where
  "execute_command_except e s = (Inr False, print (''Error executing command: '' @ exc_text e) s)"

definition execute_command :: "'x shell \<Rightarrow> string \<Rightarrow> ('x, bool) py" where
  "execute_command sh cmd s =
     try_except (execute_command_try sh cmd) execute_command_except
       (print (''\<newline>>>> Executing: '' @ cmd) s)"

definition run_git_commands :: "'x shell \<Rightarrow> ('x, unit) py" where
  "run_git_commands sh =
     block [os_chdir repo_path,
            say ''Starting git operations for bash-profile repository'',
            (\<lambda>s. say (''Working directory: '' @ cwd s) s),
            expr (execute_command sh ''git status''),
            expr (execute_command sh ''git checkout -b fix/automation-framework-compatibility''),
            expr (execute_command sh ''git branch''),
            say ''\<newline>Git operations completed!'',
            say ''Next steps:'',
            say ''1. Add your files with: git add <files>'',
            say (''2. Make commits with: git commit -m 'your message'' @ [CHR 0x27]),
            say ''3. Push with: git push -u origin fix/automation-framework-compatibility'']"

section \<open>Auxiliary notions for the statements below\<close>

text \<open>What \<^const>\<open>run_git_command\<close> and \<^const>\<open>execute_command\<close> return and the state
  they leave, named so that the two can be spoken of apart.\<close>

definition git_succeeds :: "'x shell \<Rightarrow> string \<Rightarrow> 'x pstate \<Rightarrow> bool" where
  "git_succeeds sh cmd s =
     (case fst (sh cmd (cwd s) (world s)) of Inl e \<Rightarrow> False | Inr r \<Rightarrow> returncode r = 0)"

definition after_git :: "'x shell \<Rightarrow> string \<Rightarrow> 'x pstate \<Rightarrow> 'x pstate" where
  "after_git sh cmd s = snd (run_git_command sh cmd s)"

definition after_exec :: "'x shell \<Rightarrow> string \<Rightarrow> 'x pstate \<Rightarrow> 'x pstate" where
  "after_exec sh cmd s = snd (execute_command sh cmd s)"

text \<open>The state after the three statements that the commit steps 1, 2, 4, 5 and 6 share:
  the banner is printed, the path is staged, the commit is made.\<close>

definition staged_and_committed ::
  "'x shell \<Rightarrow> string \<Rightarrow> string \<Rightarrow> string \<Rightarrow> 'x pstate \<Rightarrow> 'x pstate" where
  "staged_and_committed sh banner add_cmd msg s =
     after_git sh (git_commit msg) (after_git sh add_cmd (print banner s))"

text \<open>A path of the working tree, as the scripts see it after \<^verbatim>\<open>os.chdir\<close>.\<close>

definition in_repo :: "string \<Rightarrow> string" where
  "in_repo p = repo_path @ ''/'' @ p"

text \<open>Commands that stage and commands that commit.\<close>

definition is_git_add :: "string \<Rightarrow> bool" where
  "is_git_add cmd = (take 8 cmd = ''git add '')"

definition is_git_commit :: "string \<Rightarrow> bool" where
  "is_git_commit cmd = (take 11 cmd = ''git commit '')"

subsection \<open>Assumptions on the shell\<close>

text \<open>Some statements need one of these: no command touches the modelled file tree;
  the commands keep a property of the world; one command never raises; one command
  never succeeds.\<close>

definition keeps_tree :: "'x shell \<Rightarrow> bool" where
  "keeps_tree sh = (\<forall>cmd d w. fs (snd (sh cmd d w)) = fs w)"

definition shell_preserves :: "'x shell \<Rightarrow> ('x world \<Rightarrow> bool) \<Rightarrow> bool" where
  "shell_preserves sh P = (\<forall>cmd d w. P w \<longrightarrow> P (snd (sh cmd d w)))"

definition never_raises_on :: "'x shell \<Rightarrow> string \<Rightarrow> bool" where
  "never_raises_on sh cmd = (\<forall>d w. \<exists>r. fst (sh cmd d w) = Inr r)"

definition fails_on :: "'x shell \<Rightarrow> string \<Rightarrow> bool" where
  "fails_on sh cmd =
     (\<forall>d w. case fst (sh cmd d w) of Inl e \<Rightarrow> True | Inr r \<Rightarrow> returncode r \<noteq> 0)"

text \<open>Whether the branch is created when \<^verbatim>\<open>git_operations.py\<close> starts from world \<open>w\<close>:
  the outcome of \<^verbatim>\<open>git checkout -b\<close>, run in the repository after \<^verbatim>\<open>git status\<close>.\<close>

definition branch_created :: "'x shell \<Rightarrow> 'x world \<Rightarrow> bool" where
  "branch_created sh w =
     (case fst (sh ''git checkout -b fix/automation-framework-compatibility'' repo_path
                  (snd (sh ''git status'' repo_path w))) of
        Inl e \<Rightarrow> False
      | Inr r \<Rightarrow> returncode r = 0)"

subsection \<open>Conditions on the state\<close>

text \<open>The two file operations of commit step 3 can go through: the repository
  directory is there, and no directory sits where \<^verbatim>\<open>.gitkeep\<close> is to be written.\<close>

definition step3_can_write :: "'x world \<Rightarrow> bool" where
  "step3_can_write w =
     (fs w repo_path = Some Dir \<and> fs w (in_repo ''.bash_profile.dir/.gitkeep'') \<noteq> Some Dir)"

definition ready :: "'x pstate \<Rightarrow> bool" where
  "ready s = (cwd s = repo_path \<and> step3_can_write (world s))"

text \<open>The working tree of the end-to-end scenario: the repository directory holds
  \<^verbatim>\<open>initialize.sh\<close>; none of the other paths the script asks about is there, and
  nothing lies below the absent \<^verbatim>\<open>.bash_profile.dir\<close>.\<close>

definition absent_paths :: "string list" where
  "absent_paths =
     [''.automation/framework/core.sh'', ''.automation/auto'', ''.bash_profile.dir'',
      ''.automation/modules/tools.sh'', ''Makefile'', ''CLAUDE.md'', ''package.json'',
      ''package-lock.json'']"

definition only_initialize_present :: "'x pstate \<Rightarrow> bool" where
  "only_initialize_present s =
     (fs (world s) repo_path = Some Dir
      \<and> fs (world s) (in_repo ''initialize.sh'') \<noteq> None
      \<and> list_all (\<lambda>p. fs (world s) (in_repo p) = None) absent_paths
      \<and> fs (world s) (in_repo ''.bash_profile.dir/.gitkeep'') = None)"

subsection \<open>Properties of statements\<close>

text \<open>The state moves on: same directory, \<open>calls\<close> and \<open>out\<close> only extended.\<close>

definition advances :: "'x pstate \<Rightarrow> 'x pstate \<Rightarrow> bool" where
  "advances s s' =
     (cwd s' = cwd s \<and> (\<exists>cs. calls s' = calls s @ cs) \<and> (\<exists>ls. out s' = out s @ ls))"

text \<open>Three properties of a statement: it leaves the file tree as it is; it moves the
  state on; started in a ready state it does not raise and ends in a ready state.\<close>

definition keeps_fs :: "('x, 'a) py \<Rightarrow> bool" where
  "keeps_fs p = (\<forall>s. fs (world (snd (p s))) = fs (world s))"

definition moves_on :: "('x, 'a) py \<Rightarrow> bool" where
  "moves_on p = (\<forall>s. advances s (snd (p s)))"

definition goes_through :: "('x, unit) py \<Rightarrow> bool" where
  "goes_through p = (\<forall>s. ready s \<longrightarrow> fst (p s) = Inr () \<and> ready (snd (p s)))"

subsection \<open>Sample environments\<close>

text \<open>A shell on which every command completes with the same result and changes
  nothing, one on which process creation always fails, one that refuses to create
  the branch because it exists, and one on which process creation fails for every
  command but \<^verbatim>\<open>git diff\<close>.\<close>

definition fixed_shell :: "int \<Rightarrow> string \<Rightarrow> string \<Rightarrow> 'x shell" where
  "fixed_shell rc so se cmd d w = (Inr \<lparr>returncode = rc, stdout = so, stderr = se\<rparr>, w)"

definition raising_shell :: "string \<Rightarrow> 'x shell" where
  "raising_shell msg cmd d w = (Inl (PyException ''OSError'' msg), w)"

definition branch_exists_shell :: "'x shell" where
  "branch_exists_shell cmd d w =
     (if cmd = ''git checkout -b fix/automation-framework-compatibility''
      then (Inr \<lparr>returncode = 128, stdout = [],
                 stderr = ''fatal: a branch named 'fix/automation-framework-compatibility' already exists''\<rparr>, w)
      else (Inr \<lparr>returncode = 0, stdout = [], stderr = []\<rparr>, w))"


text \<open>Process states before the script starts: a machine whose repository directory
  holds \<^verbatim>\<open>initialize.sh\<close> and nothing else; one whose repository holds \<^verbatim>\<open>CLAUDE.md\<close>
  as well; and a machine without the repository.\<close>

definition clean_repo :: "unit pstate" where
  "clean_repo =
     \<lparr>cwd = ''/'',
      world = \<lparr>fs = [repo_path \<mapsto> Dir, in_repo ''initialize.sh'' \<mapsto> File ''#!/bin/bash''],
               ext = ()\<rparr>,
      out = [], calls = []\<rparr>"

definition documented_repo :: "unit pstate" where
  "documented_repo =
     \<lparr>cwd = ''/'',
      world = \<lparr>fs = [repo_path \<mapsto> Dir, in_repo ''initialize.sh'' \<mapsto> File ''#!/bin/bash'',
                     in_repo ''CLAUDE.md'' \<mapsto> File ''# notes''],
               ext = ()\<rparr>,
      out = [], calls = []\<rparr>"

definition no_repo :: "unit pstate" where
  "no_repo = \<lparr>cwd = ''/'', world = \<lparr>fs = [''/'' \<mapsto> Dir], ext = ()\<rparr>, out = [], calls = []\<rparr>"

text \<open>Process states inside the repository: the first sample once the script has
  changed into it, and a repository that holds \<^verbatim>\<open>.bash_profile.dir\<close> and nothing else.\<close>

definition clean_repo_entered :: "unit pstate" where
  "clean_repo_entered = clean_repo\<lparr>cwd := repo_path\<rparr>"

definition profile_dir_repo :: "unit pstate" where
  "profile_dir_repo =
     \<lparr>cwd = repo_path,
      world = \<lparr>fs = [repo_path \<mapsto> Dir, in_repo ''.bash_profile.dir'' \<mapsto> Dir], ext = ()\<rparr>,
      out = [], calls = []\<rparr>"

section \<open>The two command runners\<close>

lemma run_git_command_completed:
  "sh cmd (cwd s) (world s) = (Inr r, w) \<Longrightarrow>
   run_git_command sh cmd s =
     (Inr (returncode r = 0),
      s\<lparr>world := w,
        out := out s @ [''Command: '' @ cmd]
                 @ (if stdout r = [] then [] else [''Output: '' @ stdout r])
                 @ (if stderr r = [] then [] else [''Error: '' @ stderr r])
                 @ [replicate 50 CHR ''-''],
        calls := calls s @ [cmd]\<rparr>)"
  by (simp add: run_git_command_def try_except_def run_git_command_try_def py_bind_def
      subprocess_run_def print_def Let_def)

lemma run_git_command_raised:
  "sh cmd (cwd s) (world s) = (Inl e, w) \<Longrightarrow>
   run_git_command sh cmd s =
     (Inr False,
      s\<lparr>world := w,
        out := out s @ [''Exception running '' @ [CHR 0x27] @ cmd @ [CHR 0x27] @ '': '' @ exc_text e],
        calls := calls s @ [cmd]\<rparr>)"
  by (simp add: run_git_command_def try_except_def run_git_command_try_def py_bind_def
      subprocess_run_def print_def run_git_command_except_def)

lemma execute_command_completed:
  "sh cmd repo_path (world s) = (Inr r, w) \<Longrightarrow>
   execute_command sh cmd s =
     (Inr (returncode r = 0),
      s\<lparr>world := w,
        out := out s @ [''\<newline>>>> Executing: '' @ cmd]
                 @ (if stdout r = [] then [] else [stdout r])
                 @ (if stderr r = [] then [] else [''STDERR: '' @ stderr r])
                 @ [''Return code: '' @ str_int (returncode r)],
        calls := calls s @ [cmd]\<rparr>)"
  by (simp add: execute_command_def try_except_def execute_command_try_def py_bind_def
      subprocess_run_def print_def Let_def)

lemma execute_command_raised:
  "sh cmd repo_path (world s) = (Inl e, w) \<Longrightarrow>
   execute_command sh cmd s =
     (Inr False,
      s\<lparr>world := w,
        out := out s @ [''\<newline>>>> Executing: '' @ cmd, ''Error executing command: '' @ exc_text e],
        calls := calls s @ [cmd]\<rparr>)"
  by (simp add: execute_command_def try_except_def execute_command_try_def py_bind_def
      subprocess_run_def print_def execute_command_except_def)

lemma run_git_command_eq:
  "run_git_command sh cmd s = (Inr (git_succeeds sh cmd s), after_git sh cmd s)"
proof (cases "sh cmd (cwd s) (world s)")
  case (Pair res w)
  then show ?thesis
    by (cases res)
      (simp_all add: run_git_command_completed run_git_command_raised git_succeeds_def
        after_git_def)
qed

lemma execute_command_eq:
  "execute_command sh cmd s =
     (Inr (case fst (sh cmd repo_path (world s)) of Inl e \<Rightarrow> False | Inr r \<Rightarrow> returncode r = 0),
      after_exec sh cmd s)"
proof (cases "sh cmd repo_path (world s)")
  case (Pair res w)
  then show ?thesis
    by (cases res)
      (simp_all add: execute_command_completed execute_command_raised after_exec_def)
qed

lemma expr_run_git_command: "expr (run_git_command sh cmd) s = (Inr (), after_git sh cmd s)"
  by (simp add: expr_def py_bind_def skip_def run_git_command_eq)

lemma expr_execute_command: "expr (execute_command sh cmd) s = (Inr (), after_exec sh cmd s)"
  by (simp add: expr_def py_bind_def skip_def execute_command_eq)

lemma after_git_cases:
  obtains r w where "sh cmd (cwd s) (world s) = (Inr r, w)"
      and "after_git sh cmd s =
        s\<lparr>world := w,
          out := out s @ [''Command: '' @ cmd]
                   @ (if stdout r = [] then [] else [''Output: '' @ stdout r])
                   @ (if stderr r = [] then [] else [''Error: '' @ stderr r])
                   @ [replicate 50 CHR ''-''],
          calls := calls s @ [cmd]\<rparr>"
  | e w where "sh cmd (cwd s) (world s) = (Inl e, w)"
      and "after_git sh cmd s =
        s\<lparr>world := w,
          out := out s @ [''Exception running '' @ [CHR 0x27] @ cmd @ [CHR 0x27] @ '': '' @ exc_text e],
          calls := calls s @ [cmd]\<rparr>"
proof (cases "sh cmd (cwd s) (world s)")
  case (Pair res w)
  show ?thesis
  proof (cases res)
    case (Inl e)
    with Pair that(2) [of e w] show ?thesis
      by (simp add: after_git_def run_git_command_raised)
  next
    case (Inr r)
    with Pair that(1) [of r w] show ?thesis
      by (simp add: after_git_def run_git_command_completed)
  qed
qed

lemma calls_after_git: "calls (after_git sh cmd s) = calls s @ [cmd]"
  by (rule after_git_cases [of sh cmd s]) simp_all

lemma cwd_after_git: "cwd (after_git sh cmd s) = cwd s"
  by (rule after_git_cases [of sh cmd s]) simp_all

lemma world_after_git: "world (after_git sh cmd s) = snd (sh cmd (cwd s) (world s))"
  by (rule after_git_cases [of sh cmd s]) simp_all

lemma out_after_git: "\<exists>ls. out (after_git sh cmd s) = out s @ ls"
  by (rule after_git_cases [of sh cmd s]) simp_all

lemma after_exec_cases:
  obtains r w where "sh cmd repo_path (world s) = (Inr r, w)"
      and "after_exec sh cmd s =
        s\<lparr>world := w,
          out := out s @ [''\<newline>>>> Executing: '' @ cmd]
                   @ (if stdout r = [] then [] else [stdout r])
                   @ (if stderr r = [] then [] else [''STDERR: '' @ stderr r])
                   @ [''Return code: '' @ str_int (returncode r)],
          calls := calls s @ [cmd]\<rparr>"
  | e w where "sh cmd repo_path (world s) = (Inl e, w)"
      and "after_exec sh cmd s =
        s\<lparr>world := w,
          out := out s @ [''\<newline>>>> Executing: '' @ cmd, ''Error executing command: '' @ exc_text e],
          calls := calls s @ [cmd]\<rparr>"
proof (cases "sh cmd repo_path (world s)")
  case (Pair res w)
  show ?thesis
  proof (cases res)
    case (Inl e)
    with Pair that(2) [of e w] show ?thesis
      by (simp add: after_exec_def execute_command_raised)
  next
    case (Inr r)
    with Pair that(1) [of r w] show ?thesis
      by (simp add: after_exec_def execute_command_completed)
  qed
qed

lemma calls_after_exec: "calls (after_exec sh cmd s) = calls s @ [cmd]"
  by (rule after_exec_cases [of sh cmd s]) simp_all

lemma cwd_after_exec: "cwd (after_exec sh cmd s) = cwd s"
  by (rule after_exec_cases [of sh cmd s]) simp_all

lemma world_after_exec: "world (after_exec sh cmd s) = snd (sh cmd repo_path (world s))"
  by (rule after_exec_cases [of sh cmd s]) simp_all

lemma out_after_exec: "\<exists>ls. out (after_exec sh cmd s) = out s @ ls"
  by (rule after_exec_cases [of sh cmd s]) simp_all

lemma print_simps:
  "cwd (print l s) = cwd s" "world (print l s) = world s"
  "calls (print l s) = calls s" "out (print l s) = out s @ [l]"
  by (simp_all add: print_def)

lemma os_path_exists_print: "os_path_exists p (print l s) = os_path_exists p s"
  by (simp add: os_path_exists_def print_simps)

section \<open>Paths\<close>

lemma resolve_repo_path: "resolve d repo_path = repo_path"
  by (simp add: resolve_def repo_path_def)

lemma resolve_relative:
  "resolve repo_path ''.automation/framework/core.sh'' = in_repo ''.automation/framework/core.sh''"
  "resolve repo_path ''.automation/auto'' = in_repo ''.automation/auto''"
  "resolve repo_path ''.bash_profile.dir'' = in_repo ''.bash_profile.dir''"
  "resolve repo_path ''.bash_profile.dir/.gitkeep'' = in_repo ''.bash_profile.dir/.gitkeep''"
  "resolve repo_path ''initialize.sh'' = in_repo ''initialize.sh''"
  "resolve repo_path ''.automation/modules/tools.sh'' = in_repo ''.automation/modules/tools.sh''"
  "resolve repo_path ''Makefile'' = in_repo ''Makefile''"
  "resolve repo_path ''CLAUDE.md'' = in_repo ''CLAUDE.md''"
  "resolve repo_path ''package.json'' = in_repo ''package.json''"
  "resolve repo_path ''package-lock.json'' = in_repo ''package-lock.json''"
  by (simp_all add: resolve_def in_repo_def)

lemma dirname_in_repo: "dirname (in_repo ''.bash_profile.dir'') = repo_path"
  by (simp add: dirname_def repo_path_def in_repo_def)

lemma dirname_gitkeep:
  "dirname (in_repo ''.bash_profile.dir/.gitkeep'') = in_repo ''.bash_profile.dir''"
  by (simp add: dirname_def repo_path_def in_repo_def)

lemma in_repo_neq_repo: "in_repo p \<noteq> repo_path" "repo_path \<noteq> in_repo p"
  by (simp_all add: in_repo_def)

lemma in_repo_eq: "(in_repo p = in_repo q) = (p = q)"
  by (simp add: in_repo_def)

lemma os_chdir_repo:
  "fs (world s) repo_path = Some Dir \<Longrightarrow> os_chdir repo_path s = (Inr (), s\<lparr>cwd := repo_path\<rparr>)"
  by (simp add: os_chdir_def resolve_repo_path)

lemma os_chdir_repo_fails:
  "fs (world s) repo_path \<noteq> Some Dir \<Longrightarrow> \<exists>e. os_chdir repo_path s = (Inl e, s)"
  by (auto simp: os_chdir_def resolve_repo_path split: option.splits node.splits)

lemma block_append:
  "block (ps @ qs) s =
     (case block ps s of (Inl e, s') \<Rightarrow> (Inl e, s') | (Inr u, s') \<Rightarrow> block qs s')"
  by (induction ps arbitrary: s) (auto split: prod.splits sum.splits)

section \<open>Properties of the command runners\<close>

text \<open>
  C3 (as stated, it does not hold): the runners return no exit code. They return a
  boolean, so a child that ends with status 1 and one that ends with status 2 give the
  caller the same value.
\<close>

theorem runner_result_hides_exit_code:
  "fst (run_git_command (fixed_shell 1 '''' '''') ''git status'' clean_repo) = Inr False
   \<and> fst (run_git_command (fixed_shell 2 '''' '''') ''git status'' clean_repo) = Inr False
   \<and> fst (execute_command (fixed_shell 1 '''' '''') ''git status'' clean_repo) = Inr False
   \<and> fst (execute_command (fixed_shell 2 '''' '''') ''git status'' clean_repo) = Inr False"
  by (simp add: run_git_command_completed execute_command_completed fixed_shell_def)

text \<open>
  C3 (amended): when the child process completes, each runner returns whether its
  return code is 0, and \<^const>\<open>execute_command\<close> prints the return code itself as its last
  line of output.
\<close>

theorem runner_reports_zero_exit:
  assumes "fst (sh cmd (cwd s) (world s)) = Inr r"
      and "fst (sh cmd repo_path (world s)) = Inr r'"
  shows "fst (run_git_command sh cmd s) = Inr (returncode r = 0)
         \<and> fst (execute_command sh cmd s) = Inr (returncode r' = 0)
         \<and> last (out (snd (execute_command sh cmd s))) = ''Return code: '' @ str_int (returncode r')"
proof -
  obtain w where "sh cmd (cwd s) (world s) = (Inr r, w)"
    using assms(1) by (cases "sh cmd (cwd s) (world s)") simp
  moreover obtain w' where "sh cmd repo_path (world s) = (Inr r', w')"
    using assms(2) by (cases "sh cmd repo_path (world s)") simp
  ultimately show ?thesis
    by (simp add: run_git_command_completed execute_command_completed)
qed

theorem runner_reports_zero_exit_witness:
  "fst (run_git_command (fixed_shell 128 '''' ''fatal'') ''git status'' clean_repo) = Inr False
   \<and> fst (execute_command (fixed_shell 128 '''' ''fatal'') ''git status'' clean_repo) = Inr False
   \<and> last (out (snd (execute_command (fixed_shell 128 '''' ''fatal'') ''git status'' clean_repo)))
       = ''Return code: 128''"
proof -
  have a: "fst (fixed_shell 128 '''' ''fatal'' ''git status'' (cwd clean_repo) (world clean_repo))
           = Inr \<lparr>returncode = 128, stdout = '''', stderr = ''fatal''\<rparr>"
    by (simp add: fixed_shell_def)
  have b: "fst (fixed_shell 128 '''' ''fatal'' ''git status'' repo_path (world clean_repo))
           = Inr \<lparr>returncode = 128, stdout = '''', stderr = ''fatal''\<rparr>"
    by (simp add: fixed_shell_def)
  have c: "str_int 128 = ''128''"
    by (simp add: str_int_def)
  show ?thesis
    using a b runner_reports_zero_exit [of "fixed_shell 128 '''' ''fatal''" "''git status''"
        clean_repo "\<lparr>returncode = 128, stdout = '''', stderr = ''fatal''\<rparr>"
        "\<lparr>returncode = 128, stdout = '''', stderr = ''fatal''\<rparr>"]
    by (simp add: c)
qed

text \<open>
  C5: neither runner ever raises to its caller, whatever the shell does. When the
  invocation itself raises, the body of the \<^verbatim>\<open>try\<close> raises, the handler catches it,
  prints the text of the exception and returns \<open>False\<close>.
\<close>

theorem runner_never_raises:
  "(\<exists>b. fst (run_git_command sh cmd s) = Inr b)
   \<and> (\<exists>b. fst (execute_command sh cmd s) = Inr b)
   \<and> (fst (sh cmd (cwd s) (world s)) = Inl e \<longrightarrow>
        fst (run_git_command_try sh cmd s) = Inl e
        \<and> fst (run_git_command sh cmd s) = Inr False
        \<and> out (snd (run_git_command sh cmd s))
            = out s @ [''Exception running '' @ [CHR 0x27] @ cmd @ [CHR 0x27] @ '': '' @ exc_text e])
   \<and> (fst (sh cmd repo_path (world s)) = Inl e' \<longrightarrow>
        fst (execute_command sh cmd s) = Inr False
        \<and> last (out (snd (execute_command sh cmd s))) = ''Error executing command: '' @ exc_text e')"
proof -
  have "fst (run_git_command_try sh cmd s) = Inl e
        \<and> fst (run_git_command sh cmd s) = Inr False
        \<and> out (snd (run_git_command sh cmd s))
            = out s @ [''Exception running '' @ [CHR 0x27] @ cmd @ [CHR 0x27] @ '': '' @ exc_text e]"
    if h: "fst (sh cmd (cwd s) (world s)) = Inl e"
  proof -
    obtain w where w: "sh cmd (cwd s) (world s) = (Inl e, w)"
      using h by (cases "sh cmd (cwd s) (world s)") simp
    then have "fst (run_git_command_try sh cmd s) = Inl e"
      by (simp add: run_git_command_try_def py_bind_def subprocess_run_def)
    with w show ?thesis
      by (simp add: run_git_command_raised)
  qed
  moreover have "fst (execute_command sh cmd s) = Inr False
        \<and> last (out (snd (execute_command sh cmd s))) = ''Error executing command: '' @ exc_text e'"
    if h: "fst (sh cmd repo_path (world s)) = Inl e'"
  proof -
    obtain w where "sh cmd repo_path (world s) = (Inl e', w)"
      using h by (cases "sh cmd repo_path (world s)") simp
    then show ?thesis
      by (simp add: execute_command_raised)
  qed
  ultimately show ?thesis
    by (simp add: run_git_command_eq execute_command_eq)
qed

theorem runner_never_raises_witness:
  "fst (raising_shell ''No such file or directory: /bin/sh'' ''git status'' (cwd clean_repo) (world clean_repo))
     = Inl (PyException ''OSError'' ''No such file or directory: /bin/sh'')
   \<and> fst (run_git_command (raising_shell ''No such file or directory: /bin/sh'') ''git status'' clean_repo)
     = Inr False
   \<and> out (snd (run_git_command (raising_shell ''No such file or directory: /bin/sh'') ''git status'' clean_repo))
     = [''Exception running 'git status': No such file or directory: /bin/sh'']
   \<and> fst (execute_command (raising_shell ''No such file or directory: /bin/sh'') ''git status'' clean_repo)
     = Inr False
   \<and> last (out (snd (execute_command (raising_shell ''No such file or directory: /bin/sh'') ''git status'' clean_repo)))
     = ''Error executing command: No such file or directory: /bin/sh''"
  using runner_never_raises [of "raising_shell ''No such file or directory: /bin/sh''"
      "''git status''" clean_repo "PyException ''OSError'' ''No such file or directory: /bin/sh''"
      "PyException ''OSError'' ''No such file or directory: /bin/sh''"]
  by (simp add: raising_shell_def clean_repo_def)

text \<open>
  C8 (as stated, it does not hold): when the child completes, \<^const>\<open>run_git_command\<close>
  prints nothing that tells success from failure. A command that ends with status 0
  and one that ends with status 1, with the same output texts, leave the same lines on
  standard output.
\<close>

theorem run_git_command_prints_no_status:
  "out (snd (run_git_command (fixed_shell 0 ''On branch main'' '''') ''git status'' clean_repo))
   = out (snd (run_git_command (fixed_shell 1 ''On branch main'' '''') ''git status'' clean_repo))"
  by (simp add: run_git_command_completed fixed_shell_def)

text \<open>
  C8 (amended): what each runner writes for one invocation. \<^const>\<open>run_git_command\<close>
  writes the command text, the captured output and error texts when they are not
  empty, and a line of fifty dashes; when the invocation raises it writes one line with
  the command text and the exception text instead. \<^const>\<open>execute_command\<close> writes the
  command text first, then either the non-empty captured texts and the return code, or
  the exception text.
\<close>

theorem runner_progress_lines:
  "(fst (sh cmd (cwd s) (world s)) = Inr r \<longrightarrow>
      out (snd (run_git_command sh cmd s))
        = out s @ [''Command: '' @ cmd]
            @ (if stdout r = [] then [] else [''Output: '' @ stdout r])
            @ (if stderr r = [] then [] else [''Error: '' @ stderr r])
            @ [replicate 50 CHR ''-''])
   \<and> (fst (sh cmd (cwd s) (world s)) = Inl e \<longrightarrow>
      out (snd (run_git_command sh cmd s))
        = out s @ [''Exception running '' @ [CHR 0x27] @ cmd @ [CHR 0x27] @ '': '' @ exc_text e])
   \<and> (fst (sh cmd repo_path (world s)) = Inr r' \<longrightarrow>
      out (snd (execute_command sh cmd s))
        = out s @ [''\<newline>>>> Executing: '' @ cmd]
            @ (if stdout r' = [] then [] else [stdout r'])
            @ (if stderr r' = [] then [] else [''STDERR: '' @ stderr r'])
            @ [''Return code: '' @ str_int (returncode r')])
   \<and> (fst (sh cmd repo_path (world s)) = Inl e' \<longrightarrow>
      out (snd (execute_command sh cmd s))
        = out s @ [''\<newline>>>> Executing: '' @ cmd, ''Error executing command: '' @ exc_text e'])"
proof -
  obtain res w where a: "sh cmd (cwd s) (world s) = (res, w)"
    by (cases "sh cmd (cwd s) (world s)") auto
  obtain res' w' where b: "sh cmd repo_path (world s) = (res', w')"
    by (cases "sh cmd repo_path (world s)") auto
  from a have "out (snd (run_git_command sh cmd s))
        = out s @ [''Command: '' @ cmd]
            @ (if stdout r = [] then [] else [''Output: '' @ stdout r])
            @ (if stderr r = [] then [] else [''Error: '' @ stderr r])
            @ [replicate 50 CHR ''-'']" if "res = Inr r"
    using that by (simp add: run_git_command_completed)
  moreover from a have "out (snd (run_git_command sh cmd s))
        = out s @ [''Exception running '' @ [CHR 0x27] @ cmd @ [CHR 0x27] @ '': '' @ exc_text e]"
    if "res = Inl e"
    using that by (simp add: run_git_command_raised)
  moreover from b have "out (snd (execute_command sh cmd s))
        = out s @ [''\<newline>>>> Executing: '' @ cmd]
            @ (if stdout r' = [] then [] else [stdout r'])
            @ (if stderr r' = [] then [] else [''STDERR: '' @ stderr r'])
            @ [''Return code: '' @ str_int (returncode r')]" if "res' = Inr r'"
    using that by (simp add: execute_command_completed)
  moreover from b have "out (snd (execute_command sh cmd s))
        = out s @ [''\<newline>>>> Executing: '' @ cmd, ''Error executing command: '' @ exc_text e']"
    if "res' = Inl e'"
    using that by (simp add: execute_command_raised)
  ultimately show ?thesis
    using a b by simp
qed

theorem runner_progress_lines_witness:
  "out (snd (run_git_command (fixed_shell 1 ''On branch main'' ''warning'') ''git status'' clean_repo))
     = [''Command: git status'', ''Output: On branch main'', ''Error: warning'',
        ''--------------------------------------------------'']
   \<and> out (snd (execute_command (fixed_shell 1 ''On branch main'' ''warning'') ''git status'' clean_repo))
     = [''\<newline>>>> Executing: git status'', ''On branch main'', ''STDERR: warning'', ''Return code: 1'']
   \<and> out (snd (run_git_command (raising_shell ''fork failed'') ''git status'' clean_repo))
     = [''Exception running 'git status': fork failed'']
   \<and> out (snd (execute_command (raising_shell ''fork failed'') ''git status'' clean_repo))
     = [''\<newline>>>> Executing: git status'', ''Error executing command: fork failed'']"
proof -
  have c: "str_int 1 = ''1''"
    by (simp add: str_int_def)
  have "out (snd (run_git_command (fixed_shell 1 ''On branch main'' ''warning'') ''git status'' clean_repo))
     = [''Command: git status'', ''Output: On branch main'', ''Error: warning'',
        ''--------------------------------------------------'']
   \<and> out (snd (execute_command (fixed_shell 1 ''On branch main'' ''warning'') ''git status'' clean_repo))
     = [''\<newline>>>> Executing: git status'', ''On branch main'', ''STDERR: warning'', ''Return code: 1'']"
    using runner_progress_lines [of "fixed_shell 1 ''On branch main'' ''warning''" "''git status''"
        clean_repo "\<lparr>returncode = 1, stdout = ''On branch main'', stderr = ''warning''\<rparr>"
        "PyException ''OSError'' ''fork failed''"
        "\<lparr>returncode = 1, stdout = ''On branch main'', stderr = ''warning''\<rparr>"
        "PyException ''OSError'' ''fork failed''"]
    by (simp add: fixed_shell_def clean_repo_def c eval_nat_numeral)
  moreover have "out (snd (run_git_command (raising_shell ''fork failed'') ''git status'' clean_repo))
     = [''Exception running 'git status': fork failed'']
   \<and> out (snd (execute_command (raising_shell ''fork failed'') ''git status'' clean_repo))
     = [''\<newline>>>> Executing: git status'', ''Error executing command: fork failed'']"
    using runner_progress_lines [of "raising_shell ''fork failed''" "''git status''"
        clean_repo "\<lparr>returncode = 1, stdout = ''On branch main'', stderr = ''warning''\<rparr>"
        "PyException ''OSError'' ''fork failed''"
        "\<lparr>returncode = 1, stdout = ''On branch main'', stderr = ''warning''\<rparr>"
        "PyException ''OSError'' ''fork failed''"]
    by (simp add: raising_shell_def clean_repo_def)
  ultimately show ?thesis
    by simp
qed

text \<open>
  C9: each runner returns one boolean: \<open>True\<close> exactly when the child process ran and
  ended with status 0, \<open>False\<close> for every other status and for every exception of the
  invocation. So a status other than 0 and a failed invocation give the caller the same
  value.
\<close>

theorem runner_returns_boolean:
  "fst (run_git_command sh cmd s)
     = Inr (case fst (sh cmd (cwd s) (world s)) of Inl e \<Rightarrow> False | Inr r \<Rightarrow> returncode r = 0)
   \<and> fst (execute_command sh cmd s)
     = Inr (case fst (sh cmd repo_path (world s)) of Inl e \<Rightarrow> False | Inr r \<Rightarrow> returncode r = 0)
   \<and> (fst (sh cmd (cwd s) (world s)) = Inl e \<longrightarrow> fst (sh' cmd (cwd s) (world s)) = Inr r
        \<longrightarrow> returncode r \<noteq> 0
        \<longrightarrow> fst (run_git_command sh cmd s) = fst (run_git_command sh' cmd s))
   \<and> (fst (sh cmd repo_path (world s)) = Inl e \<longrightarrow> fst (sh' cmd repo_path (world s)) = Inr r
        \<longrightarrow> returncode r \<noteq> 0
        \<longrightarrow> fst (execute_command sh cmd s) = fst (execute_command sh' cmd s))"
  by (simp add: run_git_command_eq execute_command_eq git_succeeds_def)

theorem runner_returns_boolean_witness:
  "fst (run_git_command (raising_shell ''fork failed'') ''git status'' clean_repo)
     = fst (run_git_command (fixed_shell 1 '''' '''') ''git status'' clean_repo)
   \<and> fst (execute_command (raising_shell ''fork failed'') ''git status'' clean_repo)
     = fst (execute_command (fixed_shell 1 '''' '''') ''git status'' clean_repo)
   \<and> fst (run_git_command (fixed_shell 0 '''' '''') ''git status'' clean_repo) = Inr True"
  using runner_returns_boolean [of "raising_shell ''fork failed''" "''git status''" clean_repo
      "PyException ''OSError'' ''fork failed''" "fixed_shell 1 '''' ''''"
      "\<lparr>returncode = 1, stdout = '''', stderr = ''''\<rparr>"]
    runner_returns_boolean [of "fixed_shell 0 '''' ''''" "''git status''" clean_repo]
  by (auto simp: raising_shell_def fixed_shell_def)

section \<open>The steps of git\_operations.py\<close>

lemma check_status_eq:
  "check_status sh s =
     (Inr (), after_git sh ''git status'' (print ''=== Checking current git status ==='' s))"
  by (simp add: check_status_def say_def expr_run_git_command)

lemma create_branch_eq:
  "create_branch sh s =
     (Inr (),
      if git_succeeds sh ''git checkout -b fix/automation-framework-compatibility''
           (print ''\<newline>=== Creating branch fix/automation-framework-compatibility ==='' s)
      then print ''Branch created successfully!''
             (after_git sh ''git checkout -b fix/automation-framework-compatibility''
               (print ''\<newline>=== Creating branch fix/automation-framework-compatibility ==='' s))
      else after_git sh ''git checkout fix/automation-framework-compatibility''
             (print ''Failed to create branch. It might already exist.''
               (after_git sh ''git checkout -b fix/automation-framework-compatibility''
                 (print ''\<newline>=== Creating branch fix/automation-framework-compatibility ==='' s))))"
  by (simp add: create_branch_def say_def py_bind_def run_git_command_eq expr_run_git_command)

lemma add_commit_block:
  "block [say banner, expr (run_git_command sh add_cmd), expr (run_git_command sh (git_commit msg))] s
     = (Inr (), staged_and_committed sh banner add_cmd msg s)"
  by (simp add: say_def expr_run_git_command staged_and_committed_def)

lemma commit1_eq:
  "commit1 sh s =
     (Inr (),
      if os_path_exists ''.automation/framework/core.sh'' s
      then staged_and_committed sh ''\<newline>=== Commit 1: Bash compatibility fix ===''
             ''git add .automation/framework/core.sh'' commit_msg1 s
      else s)"
  by (simp add: commit1_def add_commit_block skip_def del: block.simps)

lemma commit2_eq:
  "commit2 sh s =
     (Inr (),
      if os_path_exists ''.automation/auto'' s
      then staged_and_committed sh ''\<newline>=== Commit 2: Fix associative array compatibility ===''
             ''git add .automation/auto'' commit_msg2 s
      else s)"
  by (simp add: commit2_def add_commit_block skip_def del: block.simps)

lemma commit4_eq:
  "commit4 sh s =
     (Inr (),
      if os_path_exists ''initialize.sh'' s
      then staged_and_committed sh ''\<newline>=== Commit 4: Add yes-to-all functionality ===''
             ''git add initialize.sh'' commit_msg4 s
      else s)"
  by (simp add: commit4_def add_commit_block skip_def del: block.simps)

lemma commit5_eq:
  "commit5 sh s =
     (Inr (),
      if os_path_exists ''.automation/modules/tools.sh'' s
      then staged_and_committed sh ''\<newline>=== Commit 5: Update tools module ===''
             ''git add .automation/modules/tools.sh'' commit_msg5 s
      else s)"
  by (simp add: commit5_def add_commit_block skip_def del: block.simps)

lemma commit6_eq:
  "commit6 sh s =
     (Inr (),
      if os_path_exists ''Makefile'' s
      then staged_and_committed sh ''\<newline>=== Commit 6: Add new make targets ===''
             ''git add Makefile'' commit_msg6 s
      else s)"
  by (simp add: commit6_def add_commit_block skip_def del: block.simps)

lemma final_status_eq:
  "final_status sh s =
     (Inr (),
      print ''You can now push with: git push -u origin fix/automation-framework-compatibility''
        (print ''Branch created and commits made successfully!''
          (print ''\<newline>=== Operation complete! ===''
            (after_git sh ''git log --oneline -10''
              (after_git sh ''git status'' (print ''\<newline>=== Final git status ==='' s))))))"
  by (simp add: final_status_def say_def expr_run_git_command)

lemma commit3_skipped: "os_path_exists ''.bash_profile.dir'' s \<Longrightarrow> commit3 sh s = (Inr (), s)"
  by (simp add: commit3_def skip_def)

lemma commit3_runs:
  assumes "\<not> os_path_exists ''.bash_profile.dir'' s" and "ready s"
  shows "commit3 sh s =
     (Inr (),
      after_git sh (git_commit commit_msg3)
        (after_git sh ''git add .bash_profile.dir/''
          (print ''\<newline>=== Commit 3: Create bash profile directory ==='' s
             \<lparr>world := (world s)\<lparr>fs := (fs (world s))
                (in_repo ''.bash_profile.dir'' \<mapsto> Dir,
                 in_repo ''.bash_profile.dir/.gitkeep'' \<mapsto> File '''')\<rparr>\<rparr>)))"
proof -
  let ?s1 = "print ''\<newline>=== Commit 3: Create bash profile directory ==='' s"
  let ?s2 = "?s1\<lparr>world := (world s)\<lparr>fs := (fs (world s))(in_repo ''.bash_profile.dir'' \<mapsto> Dir)\<rparr>\<rparr>"
  from assms have c: "cwd s = repo_path" and d: "fs (world s) repo_path = Some Dir"
    and g: "fs (world s) (in_repo ''.bash_profile.dir/.gitkeep'') \<noteq> Some Dir"
    and n: "fs (world s) (in_repo ''.bash_profile.dir'') = None"
    by (simp_all add: ready_def step3_can_write_def os_path_exists_def resolve_relative)
  have mk: "os_makedirs ''.bash_profile.dir'' ?s1 = (Inr (), ?s2)"
    using c d n by (simp add: os_makedirs_def print_simps resolve_relative dirname_in_repo)
  have wr: "open_write ''.bash_profile.dir/.gitkeep'' '''' ?s2 =
      (Inr (), ?s2\<lparr>world := (world ?s2)\<lparr>fs := (fs (world ?s2))
         (in_repo ''.bash_profile.dir/.gitkeep'' \<mapsto> File '''')\<rparr>\<rparr>)"
    using c g by (simp add: open_write_def print_simps resolve_relative dirname_gitkeep in_repo_eq)
  show ?thesis
    using assms(1) by (simp add: commit3_def say_def mk wr expr_run_git_command)
qed

section \<open>What every step preserves\<close>

subsection \<open>The state only moves on\<close>

lemma advances_refl: "advances s s"
  by (simp add: advances_def)

lemma advances_trans: "advances s s' \<Longrightarrow> advances s' s'' \<Longrightarrow> advances s s''"
  by (auto simp: advances_def)

lemma advances_print: "advances s s' \<Longrightarrow> advances s (print l s')"
  by (auto simp: advances_def print_simps)

lemma advances_after_git: "advances s s' \<Longrightarrow> advances s (after_git sh cmd s')"
  using out_after_git [of sh cmd s']
  by (auto simp: advances_def calls_after_git cwd_after_git)

lemma advances_staged: "advances s s' \<Longrightarrow> advances s (staged_and_committed sh b a m s')"
  by (simp add: staged_and_committed_def advances_after_git advances_print)

lemmas advances_intros =
  advances_refl advances_print advances_after_git advances_staged

lemma moves_on_block: "list_all moves_on ps \<Longrightarrow> moves_on (block ps)"
proof (induction ps)
  case Nil
  show ?case by (simp add: moves_on_def advances_refl)
next
  case (Cons p ps)
  then have p: "\<And>s. advances s (snd (p s))" and ps: "\<And>s. advances s (snd (block ps s))"
    by (simp_all add: moves_on_def)
  show ?case
    unfolding moves_on_def
  proof
    fix s
    obtain r s' where r: "p s = (r, s')" by (cases "p s") auto
    with p [of s] have "advances s s'" by simp
    with ps [of s'] r show "advances s (snd (block (p # ps) s))"
      by (cases r) (auto intro: advances_trans)
  qed
qed

lemma moves_on_say: "moves_on (say l)"
  by (simp add: moves_on_def say_def advances_intros)

lemma moves_on_run: "moves_on (expr (run_git_command sh cmd))"
  by (simp add: moves_on_def expr_run_git_command advances_intros)

lemma moves_on_os_makedirs: "moves_on (os_makedirs p)"
  by (auto simp: moves_on_def os_makedirs_def advances_def Let_def
      split: option.splits node.splits)

lemma moves_on_open_write: "moves_on (open_write p t)"
  by (auto simp: moves_on_def open_write_def advances_def Let_def)

lemma moves_on_subprocess_run: "moves_on (subprocess_run sh capture dir cmd)"
  by (auto simp: moves_on_def subprocess_run_def advances_def split: prod.splits sum.splits)

lemma moves_on_check_status: "moves_on (check_status sh)"
  by (simp add: moves_on_def check_status_eq advances_intros)

lemma moves_on_create_branch: "moves_on (create_branch sh)"
  by (simp add: moves_on_def create_branch_eq advances_intros)

lemma moves_on_commit1: "moves_on (commit1 sh)"
  by (simp add: moves_on_def commit1_eq advances_intros)

lemma moves_on_commit2: "moves_on (commit2 sh)"
  by (simp add: moves_on_def commit2_eq advances_intros)

lemma moves_on_commit3: "moves_on (commit3 sh)"
proof -
  have "moves_on (block [say ''\<newline>=== Commit 3: Create bash profile directory ==='',
                  os_makedirs ''.bash_profile.dir'',
                  open_write ''.bash_profile.dir/.gitkeep'' '''',
                  expr (run_git_command sh ''git add .bash_profile.dir/''),
                  expr (run_git_command sh (git_commit commit_msg3))])"
    by (rule moves_on_block)
      (simp add: moves_on_say moves_on_run moves_on_os_makedirs moves_on_open_write)
  then show ?thesis
    by (simp add: moves_on_def commit3_def skip_def advances_refl del: block.simps)
qed

lemma moves_on_commit4: "moves_on (commit4 sh)"
  by (simp add: moves_on_def commit4_eq advances_intros)

lemma moves_on_commit5: "moves_on (commit5 sh)"
  by (simp add: moves_on_def commit5_eq advances_intros)

lemma moves_on_commit6: "moves_on (commit6 sh)"
  by (simp add: moves_on_def commit6_eq advances_intros)

lemma moves_on_diff_commit:
  "moves_on (py_bind (subprocess_run sh False None ''git diff --cached --quiet'')
       (\<lambda>result. if returncode result \<noteq> 0
                  then expr (run_git_command sh (git_commit commit_msg7)) else skip))"
  unfolding moves_on_def
proof
  fix s
  let ?p = "subprocess_run sh False None ''git diff --cached --quiet''"
  obtain r s' where r: "?p s = (r, s')" by (cases "?p s") auto
  with moves_on_subprocess_run [of sh False None "''git diff --cached --quiet''"]
  have "advances s s'" by (auto simp: moves_on_def dest: spec [of _ s])
  then show "advances s (snd (py_bind ?p
       (\<lambda>result. if returncode result \<noteq> 0
                  then expr (run_git_command sh (git_commit commit_msg7)) else skip) s))"
    using r by (cases r) (simp_all add: py_bind_def skip_def expr_run_git_command advances_intros)
qed

lemma moves_on_commit_files_to_add: "moves_on (commit_files_to_add sh to_add)"
  unfolding commit_files_to_add_def
  by (rule moves_on_block) (simp add: moves_on_run moves_on_diff_commit)

lemma moves_on_commit_config: "moves_on (commit_config sh)"
proof -
  have "moves_on (\<lambda>s. if files_to_add s \<noteq> []
                 then commit_files_to_add sh (files_to_add s) s
                 else skip s)"
    using moves_on_commit_files_to_add [of sh]
    by (simp add: moves_on_def skip_def advances_refl)
  then show ?thesis
    unfolding commit_config_def by (intro moves_on_block) (simp add: moves_on_say)
qed

lemma moves_on_final_status: "moves_on (final_status sh)"
  by (simp add: moves_on_def final_status_eq advances_intros)

subsection \<open>Under a shell that keeps the tree, only step 3 changes it\<close>

lemma fs_after_git: "keeps_tree sh \<Longrightarrow> fs (world (after_git sh cmd s)) = fs (world s)"
  by (simp add: world_after_git keeps_tree_def)

lemma fs_after_exec: "keeps_tree sh \<Longrightarrow> fs (world (after_exec sh cmd s)) = fs (world s)"
  by (simp add: world_after_exec keeps_tree_def)

lemma fs_staged:
  "keeps_tree sh \<Longrightarrow> fs (world (staged_and_committed sh b a m s)) = fs (world s)"
  by (simp add: staged_and_committed_def fs_after_git print_simps)

lemma keeps_fs_block: "list_all keeps_fs ps \<Longrightarrow> keeps_fs (block ps)"
proof (induction ps)
  case Nil
  show ?case by (simp add: keeps_fs_def)
next
  case (Cons p ps)
  then have p: "\<And>s. fs (world (snd (p s))) = fs (world s)"
    and ps: "\<And>s. fs (world (snd (block ps s))) = fs (world s)"
    by (simp_all add: keeps_fs_def)
  show ?case
    unfolding keeps_fs_def
  proof
    fix s
    obtain r s' where r: "p s = (r, s')" by (cases "p s") auto
    with p [of s] have "fs (world s') = fs (world s)" by simp
    with ps [of s'] r show "fs (world (snd (block (p # ps) s))) = fs (world s)"
      by (cases r) auto
  qed
qed

lemma keeps_fs_say: "keeps_fs (say l)"
  by (simp add: keeps_fs_def say_def print_simps)

lemma keeps_fs_os_chdir: "keeps_fs (os_chdir p)"
  by (auto simp: keeps_fs_def os_chdir_def Let_def split: option.splits node.splits)

lemma keeps_fs_run: "keeps_tree sh \<Longrightarrow> keeps_fs (expr (run_git_command sh cmd))"
  by (simp add: keeps_fs_def expr_run_git_command fs_after_git)

lemma keeps_fs_exec: "keeps_tree sh \<Longrightarrow> keeps_fs (expr (execute_command sh cmd))"
  by (simp add: keeps_fs_def expr_execute_command fs_after_exec)

lemma keeps_fs_check_status: "keeps_tree sh \<Longrightarrow> keeps_fs (check_status sh)"
  by (simp add: keeps_fs_def check_status_eq fs_after_git print_simps)

lemma keeps_fs_create_branch: "keeps_tree sh \<Longrightarrow> keeps_fs (create_branch sh)"
  by (simp add: keeps_fs_def create_branch_eq fs_after_git print_simps)

lemma keeps_fs_commit1: "keeps_tree sh \<Longrightarrow> keeps_fs (commit1 sh)"
  by (simp add: keeps_fs_def commit1_eq fs_staged)

lemma keeps_fs_commit2: "keeps_tree sh \<Longrightarrow> keeps_fs (commit2 sh)"
  by (simp add: keeps_fs_def commit2_eq fs_staged)

lemma keeps_fs_commit4: "keeps_tree sh \<Longrightarrow> keeps_fs (commit4 sh)"
  by (simp add: keeps_fs_def commit4_eq fs_staged)

lemma keeps_fs_commit5: "keeps_tree sh \<Longrightarrow> keeps_fs (commit5 sh)"
  by (simp add: keeps_fs_def commit5_eq fs_staged)

lemma keeps_fs_commit6: "keeps_tree sh \<Longrightarrow> keeps_fs (commit6 sh)"
  by (simp add: keeps_fs_def commit6_eq fs_staged)

lemma keeps_fs_final_status: "keeps_tree sh \<Longrightarrow> keeps_fs (final_status sh)"
  by (simp add: keeps_fs_def final_status_eq fs_after_git print_simps)

lemma keeps_fs_diff_commit:
  assumes "keeps_tree (sh :: 'x shell)"
  shows "keeps_fs (py_bind (subprocess_run sh False None ''git diff --cached --quiet'')
       (\<lambda>result. if returncode result \<noteq> 0
                  then expr (run_git_command sh (git_commit commit_msg7)) else skip))"
  unfolding keeps_fs_def
proof
  fix s :: "'x pstate"
  obtain r w where r: "sh ''git diff --cached --quiet'' (cwd s) (world s) = (r, w)"
    by (cases "sh ''git diff --cached --quiet'' (cwd s) (world s)") auto
  have "fs (snd (sh ''git diff --cached --quiet'' (cwd s) (world s))) = fs (world s)"
    using assms by (simp add: keeps_tree_def)
  with r have "fs w = fs (world s)"
    by simp
  with r assms show "fs (world (snd (py_bind (subprocess_run sh False None ''git diff --cached --quiet'')
       (\<lambda>result. if returncode result \<noteq> 0
                  then expr (run_git_command sh (git_commit commit_msg7)) else skip) s))) = fs (world s)"
    by (cases r)
      (simp_all add: py_bind_def subprocess_run_def skip_def expr_run_git_command fs_after_git)
qed

lemma keeps_fs_commit_files_to_add:
  "keeps_tree sh \<Longrightarrow> keeps_fs (commit_files_to_add sh to_add)"
  unfolding commit_files_to_add_def
  by (rule keeps_fs_block) (simp add: keeps_fs_run keeps_fs_diff_commit)

lemma keeps_fs_commit_config:
  assumes "keeps_tree sh"
  shows "keeps_fs (commit_config sh)"
proof -
  have "keeps_fs (\<lambda>s. if files_to_add s \<noteq> []
                 then commit_files_to_add sh (files_to_add s) s
                 else skip s)"
    using keeps_fs_commit_files_to_add [OF assms]
    by (simp add: keeps_fs_def skip_def)
  then show ?thesis
    unfolding commit_config_def by (intro keeps_fs_block) (simp add: keeps_fs_say)
qed

lemma commit3_tree:
  "fs (world (snd (commit3 sh s))) = fs (world s)
   \<or> fs (world s) (resolve (cwd s) ''.bash_profile.dir'') = None
     \<and> (fs (world (snd (commit3 sh s)))
           = (fs (world s))(resolve (cwd s) ''.bash_profile.dir'' \<mapsto> Dir)
         \<or> fs (world (snd (commit3 sh s)))
           = (fs (world s))(resolve (cwd s) ''.bash_profile.dir'' \<mapsto> Dir,
               resolve (cwd s) ''.bash_profile.dir/.gitkeep'' \<mapsto> File ''''))"
  if "keeps_tree sh"
proof (cases "os_path_exists ''.bash_profile.dir'' s")
  case True
  then show ?thesis by (simp add: commit3_skipped)
next
  case False
  let ?s1 = "print ''\<newline>=== Commit 3: Create bash profile directory ==='' s"
  let ?rest = "block [expr (run_git_command sh ''git add .bash_profile.dir/''),
                      expr (run_git_command sh (git_commit commit_msg3))]"
  have rest: "\<And>t. fs (world (snd (?rest t))) = fs (world t)"
    using that by (simp add: expr_run_git_command fs_after_git)
  from False have n: "fs (world s) (resolve (cwd s) ''.bash_profile.dir'') = None"
    by (simp add: os_path_exists_def)
  obtain r1 s2 where mk: "os_makedirs ''.bash_profile.dir'' ?s1 = (r1, s2)"
    by (cases "os_makedirs ''.bash_profile.dir'' ?s1") auto
  show ?thesis
  proof (cases r1)
    case (Inl e)
    with mk n have "s2 = ?s1"
      by (auto simp: os_makedirs_def print_simps Let_def split: if_splits)
    with Inl mk False show ?thesis
      by (simp add: commit3_def say_def print_simps)
  next
    case (Inr u)
    with mk n have s2: "s2 = ?s1\<lparr>world := (world s)\<lparr>fs := (fs (world s))
         (resolve (cwd s) ''.bash_profile.dir'' \<mapsto> Dir)\<rparr>\<rparr>"
      by (auto simp: os_makedirs_def print_simps Let_def split: if_splits)
    obtain r2 s3 where wr: "open_write ''.bash_profile.dir/.gitkeep'' '''' s2 = (r2, s3)"
      by (cases "open_write ''.bash_profile.dir/.gitkeep'' '''' s2") auto
    show ?thesis
    proof (cases r2)
      case (Inl e)
      with wr have "s3 = s2"
        by (auto simp: open_write_def Let_def split: if_splits)
      with Inl Inr mk wr False n s2 show ?thesis
        by (simp add: commit3_def say_def print_simps)
    next
      case r2: (Inr v)
      with wr s2 have "fs (world s3) = (fs (world s))(resolve (cwd s) ''.bash_profile.dir'' \<mapsto> Dir,
               resolve (cwd s) ''.bash_profile.dir/.gitkeep'' \<mapsto> File '''')"
        by (auto simp: open_write_def Let_def print_simps split: if_splits)
      with r2 Inr mk wr False n rest [of s3] show ?thesis
        by (simp add: commit3_def say_def del: block.simps)
          (simp add: block.simps(2) [of "say _"] say_def)
    qed
  qed
qed

subsection \<open>From a ready state every step goes through\<close>

lemma ready_print: "ready (print l s) = ready s"
  by (simp add: ready_def print_simps)

lemma ready_after_git:
  "shell_preserves sh step3_can_write \<Longrightarrow> ready s \<Longrightarrow> ready (after_git sh cmd s)"
  by (simp add: ready_def cwd_after_git world_after_git shell_preserves_def)

lemma ready_staged:
  "shell_preserves sh step3_can_write \<Longrightarrow> ready s \<Longrightarrow> ready (staged_and_committed sh b a m s)"
  by (simp add: staged_and_committed_def ready_after_git ready_print)

lemma goes_through_block: "list_all goes_through ps \<Longrightarrow> goes_through (block ps)"
proof (induction ps)
  case Nil
  show ?case by (simp add: goes_through_def)
next
  case (Cons p ps)
  then have p: "\<And>s. ready s \<Longrightarrow> fst (p s) = Inr () \<and> ready (snd (p s))"
    and ps: "\<And>s. ready s \<Longrightarrow> fst (block ps s) = Inr () \<and> ready (snd (block ps s))"
    by (simp_all add: goes_through_def)
  show ?case
    unfolding goes_through_def
  proof (intro allI impI)
    fix s :: "'a pstate"
    assume "ready s"
    obtain r s' where r: "p s = (r, s')" by (cases "p s") auto
    with p [OF \<open>ready s\<close>] have "r = Inr ()" "ready s'" by simp_all
    with ps [of s'] r
    show "fst (block (p # ps) s) = Inr () \<and> ready (snd (block (p # ps) s))"
      by simp
  qed
qed

lemma goes_through_say: "goes_through (say l)"
  by (simp add: goes_through_def say_def ready_print)

lemma goes_through_check_status:
  "shell_preserves sh step3_can_write \<Longrightarrow> goes_through (check_status sh)"
  by (simp add: goes_through_def check_status_eq ready_after_git ready_print)

lemma goes_through_create_branch:
  "shell_preserves sh step3_can_write \<Longrightarrow> goes_through (create_branch sh)"
  by (simp add: goes_through_def create_branch_eq ready_after_git ready_print)

lemma goes_through_commit1:
  "shell_preserves sh step3_can_write \<Longrightarrow> goes_through (commit1 sh)"
  by (simp add: goes_through_def commit1_eq ready_staged)

lemma goes_through_commit2:
  "shell_preserves sh step3_can_write \<Longrightarrow> goes_through (commit2 sh)"
  by (simp add: goes_through_def commit2_eq ready_staged)

lemma ready_step3_written:
  "ready s \<Longrightarrow>
   ready (s\<lparr>world := (world s)\<lparr>fs := (fs (world s))
            (in_repo ''.bash_profile.dir'' \<mapsto> Dir,
             in_repo ''.bash_profile.dir/.gitkeep'' \<mapsto> File '''')\<rparr>\<rparr>)"
  by (simp add: ready_def step3_can_write_def in_repo_neq_repo)

lemma goes_through_commit3:
  assumes "shell_preserves sh step3_can_write"
  shows "goes_through (commit3 sh)"
  unfolding goes_through_def
proof (intro allI impI)
  fix s :: "'a pstate"
  assume r: "ready s"
  show "fst (commit3 sh s) = Inr () \<and> ready (snd (commit3 sh s))"
  proof (cases "os_path_exists ''.bash_profile.dir'' s")
    case True
    with r show ?thesis by (simp add: commit3_skipped)
  next
    case False
    have "ready (print ''\<newline>=== Commit 3: Create bash profile directory ==='' s)"
      using r by (simp add: ready_print)
    from ready_step3_written [OF this] show ?thesis
      using assms by (simp add: commit3_runs [OF False r] ready_after_git print_simps)
  qed
qed

lemma goes_through_commit4:
  "shell_preserves sh step3_can_write \<Longrightarrow> goes_through (commit4 sh)"
  by (simp add: goes_through_def commit4_eq ready_staged)

lemma goes_through_commit5:
  "shell_preserves sh step3_can_write \<Longrightarrow> goes_through (commit5 sh)"
  by (simp add: goes_through_def commit5_eq ready_staged)

lemma goes_through_commit6:
  "shell_preserves sh step3_can_write \<Longrightarrow> goes_through (commit6 sh)"
  by (simp add: goes_through_def commit6_eq ready_staged)

lemma goes_through_add_diff:
  assumes "shell_preserves (sh :: 'x shell) step3_can_write"
      and "never_raises_on sh ''git diff --cached --quiet''"
  shows "goes_through (block [expr (run_git_command sh c),
            py_bind (subprocess_run sh False None ''git diff --cached --quiet'')
              (\<lambda>result. if returncode result \<noteq> 0
                         then expr (run_git_command sh (git_commit commit_msg7))
                         else skip)])"
    (is "goes_through ?b")
  unfolding goes_through_def
proof (intro allI impI)
  fix s :: "'x pstate"
  assume r: "ready s"
  let ?s1 = "after_git sh c s"
  have r1: "ready ?s1"
    using assms(1) r by (rule ready_after_git)
  obtain res w where d: "sh ''git diff --cached --quiet'' (cwd ?s1) (world ?s1) = (Inr res, w)"
    using assms(2) unfolding never_raises_on_def
    by (metis prod.collapse)
  have "step3_can_write (snd (sh ''git diff --cached --quiet'' (cwd ?s1) (world ?s1)))"
    using assms(1) r1 by (simp add: shell_preserves_def ready_def)
  with d have w: "step3_can_write w"
    by simp
  let ?s2 = "?s1\<lparr>world := w,
                  out := (if stdout res = [] then out ?s1 else out ?s1 @ [stdout res]),
                  calls := calls ?s1 @ [''git diff --cached --quiet'']\<rparr>"
  have s2: "subprocess_run sh False None ''git diff --cached --quiet'' ?s1 = (Inr res, ?s2)"
    using d by (simp add: subprocess_run_def)
  have r2: "ready ?s2"
    using r1 w by (simp add: ready_def)
  show "fst (?b s) = Inr () \<and> ready (snd (?b s))"
    using r2 assms(1)
    by (simp add: expr_run_git_command py_bind_def s2 skip_def ready_after_git)
qed

lemma goes_through_commit_files_to_add:
  assumes "shell_preserves sh step3_can_write"
      and "never_raises_on sh ''git diff --cached --quiet''"
  shows "goes_through (commit_files_to_add sh to_add)"
  unfolding commit_files_to_add_def by (rule goes_through_add_diff [OF assms])

lemma goes_through_commit_config:
  assumes "shell_preserves sh step3_can_write"
      and "never_raises_on sh ''git diff --cached --quiet''"
  shows "goes_through (commit_config sh)"
proof -
  have "goes_through (\<lambda>s. if files_to_add s \<noteq> []
                 then commit_files_to_add sh (files_to_add s) s
                 else skip s)"
    using goes_through_commit_files_to_add [OF assms]
    by (simp add: goes_through_def skip_def)
  then show ?thesis
    unfolding commit_config_def by (intro goes_through_block) (simp add: goes_through_say)
qed

section \<open>The two scripts as a whole\<close>

lemma block_single: "block [p] s = p s"
  by (cases "p s") (auto split: sum.splits)


lemma git_operations_no_repo:
  assumes "fs (world s) repo_path \<noteq> Some Dir"
  shows "\<exists>e. git_operations sh s = (Inl e, s)"
proof -
  from os_chdir_repo_fails [OF assms] obtain e where "os_chdir repo_path s = (Inl e, s)" ..
  then show ?thesis
    by (simp add: git_operations_def)
qed

text \<open>The call of \<^verbatim>\<open>git diff\<close> is not protected: when there is a configuration file to
  add and the invocation raises, the step raises.\<close>

lemma commit_config_raises:
  assumes "files_to_add s \<noteq> []"
  shows "fst (commit_config (raising_shell msg) s) = Inl (PyException ''OSError'' msg)"
proof -
  let ?s1 = "print ''\<newline>=== Checking for additional project config files ==='' s"
  let ?c = "commit_files_to_add (raising_shell msg) (files_to_add ?s1) ?s1"
  have n: "files_to_add ?s1 \<noteq> []"
    using assms by (simp add: files_to_add_def os_path_exists_print)
  have "fst ?c = Inl (PyException ''OSError'' msg)"
    by (simp add: commit_files_to_add_def expr_run_git_command py_bind_def subprocess_run_def
        raising_shell_def)
  then obtain s' where "?c = (Inl (PyException ''OSError'' msg), s')"
    by (cases ?c) auto
  with n show ?thesis
    by (simp add: commit_config_def say_def)
qed




subsection \<open>The run on a tree that holds only initialize.sh\<close>

lemma os_path_exists_at:
  "cwd t = repo_path \<Longrightarrow> fs (world t) = f \<Longrightarrow>
   os_path_exists p t = (f (resolve repo_path p) \<noteq> None)"
  by (simp add: os_path_exists_def)

lemma scenario_run:
  assumes k: "keeps_tree sh" and o: "only_initialize_present s"
  shows "fst (git_operations sh s) = Inr ()"
    and "calls (snd (git_operations sh s))
           = calls s @ [''git status'', ''git checkout -b fix/automation-framework-compatibility'']
               @ (if branch_created sh (world s) then [] else [''git checkout fix/automation-framework-compatibility''])
               @ [''git add .bash_profile.dir/'', git_commit commit_msg3,
                  ''git add initialize.sh'', git_commit commit_msg4,
                  ''git status'', ''git log --oneline -10'']"
    and "fs (world (snd (git_operations sh s)))
           = (fs (world s))(in_repo ''.bash_profile.dir'' \<mapsto> Dir,
                            in_repo ''.bash_profile.dir/.gitkeep'' \<mapsto> File '''')"
    and "''\<newline>=== Final git status ==='' \<in> set (out (snd (git_operations sh s)))"
proof -
  let ?F = "fs (world s)"
  let ?F' = "?F(in_repo ''.bash_profile.dir'' \<mapsto> Dir,
                in_repo ''.bash_profile.dir/.gitkeep'' \<mapsto> File '''')"
  from o have d: "?F repo_path = Some Dir" and i: "?F (in_repo ''initialize.sh'') \<noteq> None"
    and a: "?F (in_repo ''.automation/framework/core.sh'') = None"
      "?F (in_repo ''.automation/auto'') = None"
      "?F (in_repo ''.bash_profile.dir'') = None"
      "?F (in_repo ''.automation/modules/tools.sh'') = None"
      "?F (in_repo ''Makefile'') = None"
      "?F (in_repo ''CLAUDE.md'') = None"
      "?F (in_repo ''package.json'') = None"
      "?F (in_repo ''package-lock.json'') = None"
      "?F (in_repo ''.bash_profile.dir/.gitkeep'') = None"
    by (simp_all add: only_initialize_present_def absent_paths_def)
  define s0 where "s0 = s\<lparr>cwd := repo_path\<rparr>"
  define s1 where "s1 = snd (check_status sh s0)"
  define s2 where "s2 = snd (create_branch sh s1)"
  define s3 where "s3 = snd (commit3 sh s2)"
  define s4 where "s4 = snd (commit4 sh s3)"
  define s5 where "s5 = print ''\<newline>=== Checking for additional project config files ==='' s4"
  define s6 where "s6 = snd (final_status sh s5)"
  have p0: "cwd s0 = repo_path" "fs (world s0) = ?F" "calls s0 = calls s"
    by (simp_all add: s0_def)
  have e1: "check_status sh s0 = (Inr (), s1)"
    by (simp add: s1_def check_status_eq)
  have p1: "cwd s1 = repo_path" "fs (world s1) = ?F" "calls s1 = calls s @ [''git status'']"
    using p0 k by (simp_all add: s1_def check_status_eq cwd_after_git fs_after_git
        calls_after_git print_simps)
  have w1: "world s1 = snd (sh ''git status'' repo_path (world s))"
    by (simp add: s1_def check_status_eq world_after_git print_simps s0_def)
  have e2: "create_branch sh s1 = (Inr (), s2)"
    by (simp add: s2_def create_branch_eq)
  have p2: "cwd s2 = repo_path" "fs (world s2) = ?F"
    using p1 k by (simp_all add: s2_def create_branch_eq cwd_after_git fs_after_git print_simps)
  have c2: "calls s2 = calls s @ [''git status'', ''git checkout -b fix/automation-framework-compatibility'']
               @ (if branch_created sh (world s) then [] else [''git checkout fix/automation-framework-compatibility''])"
    using p1 w1 by (simp add: s2_def create_branch_eq calls_after_git print_simps
        git_succeeds_def branch_created_def)
  have x2: "\<not> os_path_exists ''.automation/framework/core.sh'' s2"
    "\<not> os_path_exists ''.automation/auto'' s2"
    "\<not> os_path_exists ''.bash_profile.dir'' s2"
    using a by (simp_all add: os_path_exists_at [OF p2] resolve_relative)
  have e12: "commit1 sh s2 = (Inr (), s2)" "commit2 sh s2 = (Inr (), s2)"
    using x2 by (simp_all add: commit1_eq commit2_eq)
  have r2: "ready s2"
    using p2 d a by (simp add: ready_def step3_can_write_def)
  have e3: "commit3 sh s2 = (Inr (), s3)"
    by (simp add: s3_def commit3_runs [OF x2(3) r2])
  have p3: "cwd s3 = repo_path" "fs (world s3) = ?F'"
    "calls s3 = calls s2 @ [''git add .bash_profile.dir/'', git_commit commit_msg3]"
    using p2 k by (simp_all add: s3_def commit3_runs [OF x2(3) r2] cwd_after_git fs_after_git
        calls_after_git print_simps)
  have x3: "os_path_exists ''initialize.sh'' s3"
    "\<not> os_path_exists ''.automation/modules/tools.sh'' s3"
    "\<not> os_path_exists ''Makefile'' s3"
    using a i by (simp_all add: os_path_exists_at [OF p3(1,2)] resolve_relative in_repo_eq)
  have e4: "commit4 sh s3 = (Inr (), s4)"
    by (simp add: s4_def commit4_eq)
  have p4: "cwd s4 = repo_path" "fs (world s4) = ?F'"
    "calls s4 = calls s3 @ [''git add initialize.sh'', git_commit commit_msg4]"
    using p3 k x3 by (simp_all add: s4_def commit4_eq staged_and_committed_def cwd_after_git
        fs_after_git calls_after_git print_simps)
  have x4: "\<not> os_path_exists ''.automation/modules/tools.sh'' s4"
    "\<not> os_path_exists ''Makefile'' s4"
    "files_to_add s4 = []"
    using a by (simp_all add: os_path_exists_at [OF p4(1,2)] resolve_relative in_repo_eq
        files_to_add_def config_files_def)
  have e56: "commit5 sh s4 = (Inr (), s4)" "commit6 sh s4 = (Inr (), s4)"
    using x4 by (simp_all add: commit5_eq commit6_eq)
  have e7: "commit_config sh s4 = (Inr (), s5)"
    using x4 by (simp add: commit_config_def say_def s5_def skip_def files_to_add_def
        os_path_exists_print)
  have e8: "final_status sh s5 = (Inr (), s6)"
    by (simp add: s6_def final_status_eq)
  have p6: "fs (world s6) = ?F'"
    "calls s6 = calls s4 @ [''git status'', ''git log --oneline -10'']"
    using p4 k by (simp_all add: s6_def s5_def final_status_eq fs_after_git calls_after_git
        print_simps)
  obtain ls where ls: "out (after_git sh ''git log --oneline -10''
            (after_git sh ''git status'' (print ''\<newline>=== Final git status ==='' s5)))
        = (out s5 @ [''\<newline>=== Final git status ===''] ) @ ls"
    using out_after_git [of sh "''git status''" "print ''\<newline>=== Final git status ==='' s5"]
      out_after_git [of sh "''git log --oneline -10''"
        "after_git sh ''git status'' (print ''\<newline>=== Final git status ==='' s5)"]
    by (auto simp: print_simps)
  have o6: "''\<newline>=== Final git status ==='' \<in> set (out s6)"
    by (simp add: s6_def final_status_eq print_simps ls)
  have g: "git_operations sh s = (Inr (), s6)"
    by (simp add: git_operations_def os_chdir_repo [OF d] s0_def [symmetric]
        e1 e2 e12 e3 e4 e56 e7 e8)
  show "fst (git_operations sh s) = Inr ()"
    by (simp add: g)
  show "fs (world (snd (git_operations sh s))) = ?F'"
    by (simp add: g p6)
  show "''\<newline>=== Final git status ==='' \<in> set (out (snd (git_operations sh s)))"
    by (simp add: g o6)
  show "calls (snd (git_operations sh s))
           = calls s @ [''git status'', ''git checkout -b fix/automation-framework-compatibility'']
               @ (if branch_created sh (world s) then [] else [''git checkout fix/automation-framework-compatibility''])
               @ [''git add .bash_profile.dir/'', git_commit commit_msg3,
                  ''git add initialize.sh'', git_commit commit_msg4,
                  ''git status'', ''git log --oneline -10'']"
    by (simp add: g p6 p4 p3 c2)
qed

lemma keeps_tree_fixed_shell: "keeps_tree (fixed_shell rc so se)"
  by (simp add: keeps_tree_def fixed_shell_def)

lemma only_initialize_clean_repo: "only_initialize_present clean_repo"
  by (simp add: only_initialize_present_def clean_repo_def absent_paths_def in_repo_eq
      in_repo_neq_repo)

text \<open>
  C1 (as stated, it does not hold): on a tree that holds only \<^verbatim>\<open>initialize.sh\<close>, step 3
  is not skipped. Its test is \<^verbatim>\<open>not os.path.exists('.bash_profile.dir')\<close>, so with the
  directory absent the step runs: \<^verbatim>\<open>git add .bash_profile.dir/\<close> is among the commands
  issued, and two \<^verbatim>\<open>git commit\<close> commands are issued, not one.
\<close>

theorem step3_runs_when_only_initialize_present:
  "only_initialize_present clean_repo
   \<and> ''git add .bash_profile.dir/'' \<in> set (calls (snd (git_operations (fixed_shell 0 '''' '''') clean_repo)))
   \<and> length (filter is_git_commit (calls (snd (git_operations (fixed_shell 0 '''' '''') clean_repo)))) = 2"
proof -
  have c: "calls clean_repo = []"
    by (simp add: clean_repo_def)
  note r = scenario_run(2) [OF keeps_tree_fixed_shell only_initialize_clean_repo, of 0 "[]" "[]"]
  show ?thesis
    by (simp add: r c only_initialize_clean_repo is_git_commit_def git_commit_def)
qed

text \<open>
  C1 (amended): from a tree in which, of the paths the script asks about, only
  \<^verbatim>\<open>initialize.sh\<close> exists, and with a shell whose commands leave the file tree alone,
  \<^verbatim>\<open>git_operations.py\<close> runs to its end and issues these commands in this order:
  \<^verbatim>\<open>git status\<close>; \<^verbatim>\<open>git checkout -b\<close> of the branch, followed by a plain
  \<^verbatim>\<open>git checkout\<close> of it when the creation did not succeed; the add and the commit of
  step 3; the add and the commit of \<^verbatim>\<open>initialize.sh\<close>; \<^verbatim>\<open>git status\<close> and \<^verbatim>\<open>git log\<close>.
  Steps 1, 2, 5 and 6 and the commit of configuration files are skipped. Step 3 runs
  and leaves \<^verbatim>\<open>.bash_profile.dir\<close> and an empty \<^verbatim>\<open>.bash_profile.dir/.gitkeep\<close> in the tree.
  Two \<^verbatim>\<open>git commit\<close> commands are issued.
\<close>

theorem only_initialize_scenario:
  assumes "keeps_tree sh" and "only_initialize_present s"
  shows "fst (git_operations sh s) = Inr ()
         \<and> calls (snd (git_operations sh s))
             = calls s @ [''git status'', ''git checkout -b fix/automation-framework-compatibility'']
                 @ (if branch_created sh (world s) then [] else [''git checkout fix/automation-framework-compatibility''])
                 @ [''git add .bash_profile.dir/'', git_commit commit_msg3,
                    ''git add initialize.sh'', git_commit commit_msg4,
                    ''git status'', ''git log --oneline -10'']
         \<and> length (filter is_git_commit (drop (length (calls s)) (calls (snd (git_operations sh s))))) = 2
         \<and> fs (world (snd (git_operations sh s)))
             = (fs (world s))(in_repo ''.bash_profile.dir'' \<mapsto> Dir,
                              in_repo ''.bash_profile.dir/.gitkeep'' \<mapsto> File '''')
         \<and> ''\<newline>=== Final git status ==='' \<in> set (out (snd (git_operations sh s)))"
  using scenario_run [OF assms] by (simp add: is_git_commit_def git_commit_def)

theorem only_initialize_scenario_witness:
  "fst (git_operations branch_exists_shell clean_repo) = Inr ()
   \<and> calls (snd (git_operations branch_exists_shell clean_repo))
       = [''git status'', ''git checkout -b fix/automation-framework-compatibility'',
          ''git checkout fix/automation-framework-compatibility'',
          ''git add .bash_profile.dir/'', git_commit commit_msg3,
          ''git add initialize.sh'', git_commit commit_msg4,
          ''git status'', ''git log --oneline -10'']
   \<and> fs (world (snd (git_operations branch_exists_shell clean_repo))) (in_repo ''.bash_profile.dir/.gitkeep'')
       = Some (File '''')"
proof -
  have k: "keeps_tree (branch_exists_shell :: unit shell)"
    by (simp add: keeps_tree_def branch_exists_shell_def)
  have b: "\<not> branch_created branch_exists_shell (world clean_repo)"
    by (simp add: branch_created_def branch_exists_shell_def)
  have c: "calls clean_repo = []"
    by (simp add: clean_repo_def)
  show ?thesis
    using only_initialize_scenario [OF k only_initialize_clean_repo]
    by (simp add: b c)
qed

subsection \<open>What the scripts themselves do to the file tree\<close>

lemma keeps_fs_run_git_commands:
  assumes "keeps_tree sh"
  shows "keeps_fs (run_git_commands sh)"
proof -
  have "keeps_fs (\<lambda>s. say (''Working directory: '' @ cwd s) s)"
    by (simp add: keeps_fs_def say_def print_simps)
  then show ?thesis
    unfolding run_git_commands_def
    by (intro keeps_fs_block) (simp add: keeps_fs_say keeps_fs_os_chdir keeps_fs_exec [OF assms])
qed

lemma git_operations_tree:
  assumes k: "keeps_tree sh"
  shows "fs (world (snd (git_operations sh s))) = fs (world s)
     \<or> fs (world s) (in_repo ''.bash_profile.dir'') = None
       \<and> (fs (world (snd (git_operations sh s)))
             = (fs (world s))(in_repo ''.bash_profile.dir'' \<mapsto> Dir)
           \<or> fs (world (snd (git_operations sh s)))
             = (fs (world s))(in_repo ''.bash_profile.dir'' \<mapsto> Dir,
                              in_repo ''.bash_profile.dir/.gitkeep'' \<mapsto> File ''''))"
proof (cases "fs (world s) repo_path = Some Dir")
  case False
  from git_operations_no_repo [OF this, of sh] show ?thesis
    by auto
next
  case True
  let ?pre = "[check_status sh, create_branch sh, commit1 sh, commit2 sh]"
  let ?post = "[commit4 sh, commit5 sh, commit6 sh, commit_config sh, final_status sh]"
  let ?s0 = "s\<lparr>cwd := repo_path\<rparr>"
  have "git_operations sh s = block (?pre @ (commit3 sh # ?post)) ?s0"
    by (simp add: git_operations_def os_chdir_repo [OF True])
  also have "\<dots> = (case block ?pre ?s0 of (Inl e, s') \<Rightarrow> (Inl e, s')
                     | (Inr u, s') \<Rightarrow> block (commit3 sh # ?post) s')"
    by (rule block_append)
  finally have g: "git_operations sh s =
      (case block ?pre ?s0 of (Inl e, s') \<Rightarrow> (Inl e, s')
       | (Inr u, s') \<Rightarrow> block (commit3 sh # ?post) s')" .
  have "keeps_fs (block ?pre)"
    by (rule keeps_fs_block)
      (simp add: k keeps_fs_check_status keeps_fs_create_branch keeps_fs_commit1 keeps_fs_commit2)
  then have f1: "fs (world (snd (block ?pre ?s0))) = fs (world s)"
    by (simp add: keeps_fs_def del: block.simps)
  have "moves_on (block ?pre)"
    by (rule moves_on_block)
      (simp add: moves_on_check_status moves_on_create_branch moves_on_commit1 moves_on_commit2)
  then have c1: "cwd (snd (block ?pre ?s0)) = repo_path"
    by (simp add: moves_on_def advances_def del: block.simps)
  have "keeps_fs (block ?post)"
    by (rule keeps_fs_block)
      (simp add: k keeps_fs_commit4 keeps_fs_commit5 keeps_fs_commit6 keeps_fs_commit_config
        keeps_fs_final_status)
  then have f3: "\<And>t. fs (world (snd (block ?post t))) = fs (world t)"
    by (simp add: keeps_fs_def del: block.simps)
  obtain r1 s1 where b1: "block ?pre ?s0 = (r1, s1)"
    by (cases "block ?pre ?s0") auto
  with f1 c1 have s1: "fs (world s1) = fs (world s)" "cwd s1 = repo_path"
    by simp_all
  obtain r2 s2 where b2: "commit3 sh s1 = (r2, s2)"
    by (cases "commit3 sh s1") auto
  have t: "fs (world s2) = fs (world s)
     \<or> fs (world s) (in_repo ''.bash_profile.dir'') = None
       \<and> (fs (world s2) = (fs (world s))(in_repo ''.bash_profile.dir'' \<mapsto> Dir)
           \<or> fs (world s2) = (fs (world s))(in_repo ''.bash_profile.dir'' \<mapsto> Dir,
                              in_repo ''.bash_profile.dir/.gitkeep'' \<mapsto> File ''''))"
    using commit3_tree [OF k, of s1] b2 s1 by (simp add: resolve_relative)
  have "fs (world (snd (git_operations sh s))) = fs (world s) \<or>
        fs (world (snd (git_operations sh s))) = fs (world s2)"
  proof (cases r1)
    case (Inl e)
    with b1 s1 show ?thesis
      by (simp add: g del: block.simps)
  next
    case r1: (Inr u)
    show ?thesis
    proof (cases r2)
      case (Inl e)
      with r1 b1 b2 show ?thesis
        by (simp add: g del: block.simps) simp
    next
      case (Inr v)
      with r1 b1 b2 f3 [of s2] show ?thesis
        by (simp add: g del: block.simps)
          (simp add: block.simps(2) [of "commit3 sh"] del: block.simps)
    qed
  qed
  with t show ?thesis
    by auto
qed

text \<open>
  C7 (as stated, it does not hold): \<^verbatim>\<open>git_operations.py\<close> itself writes to the working
  tree. With a shell that changes nothing, the run on a tree without
  \<^verbatim>\<open>.bash_profile.dir\<close> ends with the file \<^verbatim>\<open>.bash_profile.dir/.gitkeep\<close> in it.
\<close>

theorem git_operations_writes_gitkeep:
  "keeps_tree (fixed_shell 0 '''' '''' :: unit shell)
   \<and> fs (world clean_repo) (in_repo ''.bash_profile.dir/.gitkeep'') = None
   \<and> fs (world (snd (git_operations (fixed_shell 0 '''' '''') clean_repo)))
        (in_repo ''.bash_profile.dir/.gitkeep'') = Some (File '''')"
proof -
  have "fs (world clean_repo) (in_repo ''.bash_profile.dir/.gitkeep'') = None"
    by (simp add: clean_repo_def in_repo_eq in_repo_neq_repo)
  then show ?thesis
    by (simp add: keeps_tree_fixed_shell
        scenario_run(3) [OF keeps_tree_fixed_shell only_initialize_clean_repo])
qed

text \<open>
  C7 (amended): apart from what the commands given to the shell do,
  \<^verbatim>\<open>run_git_commands.py\<close> leaves the file tree as it is, and \<^verbatim>\<open>git_operations.py\<close>
  changes it in one way only: when \<^verbatim>\<open>.bash_profile.dir\<close> does not exist in the
  repository, step 3 creates that directory and writes the empty file
  \<^verbatim>\<open>.bash_profile.dir/.gitkeep\<close> (the directory alone, if writing the file fails).
  When \<^verbatim>\<open>.bash_profile.dir\<close> exists, the tree is left as it is.
\<close>

theorem scripts_own_tree_changes:
  assumes "keeps_tree sh"
  shows "fs (world (snd (run_git_commands sh s))) = fs (world s)
     \<and> (fs (world (snd (git_operations sh s))) = fs (world s)
        \<or> fs (world s) (in_repo ''.bash_profile.dir'') = None
          \<and> (fs (world (snd (git_operations sh s)))
                = (fs (world s))(in_repo ''.bash_profile.dir'' \<mapsto> Dir)
              \<or> fs (world (snd (git_operations sh s)))
                = (fs (world s))(in_repo ''.bash_profile.dir'' \<mapsto> Dir,
                                 in_repo ''.bash_profile.dir/.gitkeep'' \<mapsto> File '''')))"
  using keeps_fs_run_git_commands [OF assms] git_operations_tree [OF assms, of s]
  by (simp add: keeps_fs_def)

theorem scripts_own_tree_changes_witness:
  "fs (world (snd (run_git_commands (fixed_shell 0 '''' '''') profile_dir_repo)))
     = fs (world profile_dir_repo)
   \<and> fs (world (snd (git_operations (fixed_shell 0 '''' '''') profile_dir_repo)))
     = fs (world profile_dir_repo)"
proof -
  have "fs (world profile_dir_repo) (in_repo ''.bash_profile.dir'') \<noteq> None"
    by (simp add: profile_dir_repo_def)
  then show ?thesis
    using scripts_own_tree_changes [OF keeps_tree_fixed_shell, of 0 "[]" "[]" profile_dir_repo]
    by auto
qed

subsection \<open>The commands of run\_git\_commands.py\<close>

lemma run_git_commands_entered:
  assumes "fs (world s) repo_path = Some Dir"
  shows "run_git_commands sh s =
     (Inr (),
      print ''3. Push with: git push -u origin fix/automation-framework-compatibility''
        (print (''2. Make commits with: git commit -m 'your message'' @ [CHR 0x27])
          (print ''1. Add your files with: git add <files>''
            (print ''Next steps:''
              (print ''\<newline>Git operations completed!''
                (after_exec sh ''git branch''
                  (after_exec sh ''git checkout -b fix/automation-framework-compatibility''
                    (after_exec sh ''git status''
                      (print (''Working directory: '' @ repo_path)
                        (print ''Starting git operations for bash-profile repository''
                          (s\<lparr>cwd := repo_path\<rparr>)))))))))))"
  by (simp add: run_git_commands_def os_chdir_repo [OF assms] say_def expr_execute_command
      print_simps)

lemma run_git_commands_no_repo:
  assumes "fs (world s) repo_path \<noteq> Some Dir"
  shows "\<exists>e. run_git_commands sh s = (Inl e, s)"
proof -
  from os_chdir_repo_fails [OF assms] obtain e where "os_chdir repo_path s = (Inl e, s)" ..
  then show ?thesis
    by (simp add: run_git_commands_def)
qed

lemma run_git_commands_calls:
  assumes "fs (world s) repo_path = Some Dir"
  shows "calls (snd (run_git_commands sh s))
           = calls s @ [''git status'', ''git checkout -b fix/automation-framework-compatibility'', ''git branch'']"
  by (simp add: run_git_commands_entered [OF assms] print_simps calls_after_exec)

text \<open>
  C10 (as stated, it does not hold): the three commands are not issued for every state
  of the file system. Where the repository directory does not exist, \<^verbatim>\<open>os.chdir\<close> raises
  and the script ends before its first command.
\<close>

theorem run_git_commands_stops_without_repo:
  "fst (run_git_commands (fixed_shell 0 '''' '''') no_repo)
     = Inl (PyException ''FileNotFoundError'' (errno_text ''[Errno 2] No such file or directory'' repo_path))
   \<and> calls (snd (run_git_commands (fixed_shell 0 '''' '''') no_repo)) = []"
proof -
  have "fs (world no_repo) repo_path = None"
    by (simp add: no_repo_def repo_path_def)
  then have "os_chdir repo_path no_repo
      = (Inl (PyException ''FileNotFoundError'' (errno_text ''[Errno 2] No such file or directory'' repo_path)), no_repo)"
    by (simp add: os_chdir_def resolve_repo_path)
  then show ?thesis
    by (simp add: run_git_commands_def) (simp add: no_repo_def)
qed

text \<open>
  C10 (amended): whenever \<^verbatim>\<open>os.chdir\<close> into the repository succeeds,
  \<^verbatim>\<open>run_git_commands.py\<close> runs to its end and issues exactly three commands, in this
  order, whatever the shell answers and whatever else the file tree holds:
  \<^verbatim>\<open>git status\<close>, \<^verbatim>\<open>git checkout -b fix/automation-framework-compatibility\<close>,
  \<^verbatim>\<open>git branch\<close>. When \<^verbatim>\<open>os.chdir\<close> fails it issues none. In both cases it issues no
  \<^verbatim>\<open>git add\<close> and no \<^verbatim>\<open>git commit\<close>.
\<close>

theorem run_git_commands_sequence:
  "(fs (world s) repo_path = Some Dir \<longrightarrow>
      fst (run_git_commands sh s) = Inr ()
      \<and> calls (snd (run_git_commands sh s))
          = calls s @ [''git status'', ''git checkout -b fix/automation-framework-compatibility'',
                       ''git branch''])
   \<and> (fs (world s) repo_path \<noteq> Some Dir \<longrightarrow> calls (snd (run_git_commands sh s)) = calls s)
   \<and> filter (\<lambda>c. is_git_add c \<or> is_git_commit c)
        (drop (length (calls s)) (calls (snd (run_git_commands sh s)))) = []"
proof (cases "fs (world s) repo_path = Some Dir")
  case True
  have c: "calls (snd (run_git_commands sh s))
      = calls s @ [''git status'', ''git checkout -b fix/automation-framework-compatibility'',
                   ''git branch'']"
    by (rule run_git_commands_calls [OF True])
  have f: "fst (run_git_commands sh s) = Inr ()"
    by (simp add: run_git_commands_entered [OF True])
  show ?thesis
    by (simp add: True c f is_git_add_def is_git_commit_def)
next
  case False
  from run_git_commands_no_repo [OF this, of sh] False show ?thesis
    by auto
qed

theorem run_git_commands_sequence_witness:
  "fst (run_git_commands (raising_shell ''fork failed'') clean_repo) = Inr ()
   \<and> calls (snd (run_git_commands (raising_shell ''fork failed'') clean_repo))
       = [''git status'', ''git checkout -b fix/automation-framework-compatibility'', ''git branch'']
   \<and> calls (snd (run_git_commands (raising_shell ''fork failed'') no_repo)) = []"
proof -
  have a: "fs (world clean_repo) repo_path = Some Dir" "calls clean_repo = []"
    by (simp_all add: clean_repo_def in_repo_neq_repo)
  have b: "fs (world no_repo) repo_path \<noteq> Some Dir" "calls no_repo = []"
    by (simp_all add: no_repo_def repo_path_def)
  show ?thesis
    using run_git_commands_sequence [of clean_repo "raising_shell ''fork failed''"]
      run_git_commands_sequence [of no_repo "raising_shell ''fork failed''"] a b
    by simp
qed

subsection \<open>When the branch exists already\<close>

lemma fails_on_not_succeeds: "fails_on sh cmd \<Longrightarrow> \<not> git_succeeds sh cmd s"
proof -
  assume "fails_on sh cmd"
  then have "case fst (sh cmd (cwd s) (world s)) of Inl e \<Rightarrow> True | Inr r \<Rightarrow> returncode r \<noteq> 0"
    by (simp add: fails_on_def)
  then show ?thesis
    by (cases "fst (sh cmd (cwd s) (world s))") (simp_all add: git_succeeds_def)
qed

lemma fails_on_branch_exists_shell:
  "fails_on (branch_exists_shell :: 'x shell) ''git checkout -b fix/automation-framework-compatibility''"
  by (simp add: fails_on_def branch_exists_shell_def)

text \<open>
  C4 (as stated, it does not hold): \<^verbatim>\<open>run_git_commands.py\<close> has no fallback. When
  \<^verbatim>\<open>git checkout -b\<close> fails because the branch exists, the script goes on to
  \<^verbatim>\<open>git branch\<close> and never attempts a checkout of the existing branch.
\<close>

theorem run_git_commands_has_no_fallback:
  "fails_on (branch_exists_shell :: unit shell) ''git checkout -b fix/automation-framework-compatibility''
   \<and> calls (snd (run_git_commands branch_exists_shell clean_repo))
       = [''git status'', ''git checkout -b fix/automation-framework-compatibility'', ''git branch'']
   \<and> ''git checkout fix/automation-framework-compatibility''
       \<notin> set (calls (snd (run_git_commands branch_exists_shell clean_repo)))"
proof -
  have "fs (world clean_repo) repo_path = Some Dir"
    by (simp add: clean_repo_def in_repo_neq_repo)
  from run_git_commands_calls [OF this] have
    "calls (snd (run_git_commands branch_exists_shell clean_repo))
       = [''git status'', ''git checkout -b fix/automation-framework-compatibility'', ''git branch'']"
    by (simp add: clean_repo_def)
  then show ?thesis
    by (simp add: fails_on_branch_exists_shell)
qed

text \<open>
  C4 (amended): when \<^verbatim>\<open>git checkout -b\<close> of the branch fails (a status other than 0, or
  an exception of the invocation) and \<^verbatim>\<open>os.chdir\<close> has succeeded, the failure is not
  fatal in either script. \<^verbatim>\<open>git_operations.py\<close> prints that the creation failed and
  issues \<^verbatim>\<open>git checkout\<close> of the existing branch as its next command; the commands of
  the later steps come after these three. Provided further that the directory and file
  creation of step 3 can go through and that the direct call of \<^verbatim>\<open>git diff\<close> does not
  raise, the script does not raise at all: it runs to its end, where it prints the final
  status block and issues \<^verbatim>\<open>git status\<close> and \<^verbatim>\<open>git log\<close> as its last two commands.
  \<^verbatim>\<open>run_git_commands.py\<close> attempts no checkout of the existing branch: it goes on to
  \<^verbatim>\<open>git branch\<close> and runs to its end without raising.
\<close>

theorem branch_exists_is_not_fatal:
  assumes "fs (world s) repo_path = Some Dir"
      and "fails_on sh ''git checkout -b fix/automation-framework-compatibility''"
  shows "(\<exists>rest. calls (snd (git_operations sh s))
             = calls s @ [''git status'', ''git checkout -b fix/automation-framework-compatibility'',
                          ''git checkout fix/automation-framework-compatibility'']
                 @ rest)
         \<and> ''Failed to create branch. It might already exist.''
             \<in> set (out (snd (git_operations sh s)))
         \<and> fst (create_branch sh s') = Inr ()
         \<and> (step3_can_write (world s) \<and> shell_preserves sh step3_can_write
              \<and> never_raises_on sh ''git diff --cached --quiet'' \<longrightarrow>
                fst (git_operations sh s) = Inr ()
                \<and> (\<exists>later. calls (snd (git_operations sh s))
                       = calls s @ [''git status'',
                                    ''git checkout -b fix/automation-framework-compatibility'',
                                    ''git checkout fix/automation-framework-compatibility'']
                           @ later @ [''git status'', ''git log --oneline -10''])
                \<and> ''\<newline>=== Final git status ==='' \<in> set (out (snd (git_operations sh s)))
                \<and> last (out (snd (git_operations sh s)))
                    = ''You can now push with: git push -u origin fix/automation-framework-compatibility'')
         \<and> fst (run_git_commands sh s) = Inr ()
         \<and> calls (snd (run_git_commands sh s))
             = calls s @ [''git status'', ''git checkout -b fix/automation-framework-compatibility'',
                          ''git branch'']"
proof -
  let ?s0 = "s\<lparr>cwd := repo_path\<rparr>"
  let ?mid = "[commit1 sh, commit2 sh, commit3 sh, commit4 sh, commit5 sh, commit6 sh,
               commit_config sh]"
  let ?three = "[''git status'', ''git checkout -b fix/automation-framework-compatibility'',
                 ''git checkout fix/automation-framework-compatibility'']"
  define s1 where "s1 = snd (check_status sh ?s0)"
  define s2 where "s2 = snd (create_branch sh s1)"
  have e1: "check_status sh ?s0 = (Inr (), s1)"
    by (simp add: s1_def check_status_eq)
  have e2: "create_branch sh s1 = (Inr (), s2)"
    by (simp add: s2_def create_branch_eq)
  have c1: "calls s1 = calls s @ [''git status'']"
    by (simp add: s1_def check_status_eq calls_after_git print_simps)
  have c2: "calls s2 = calls s @ ?three"
    by (simp add: s2_def create_branch_eq fails_on_not_succeeds [OF assms(2)] calls_after_git
        print_simps c1)
  obtain ls where "out (after_git sh ''git checkout fix/automation-framework-compatibility''
        (print ''Failed to create branch. It might already exist.''
          (after_git sh ''git checkout -b fix/automation-framework-compatibility''
            (print ''\<newline>=== Creating branch fix/automation-framework-compatibility ==='' s1))))
      = out (print ''Failed to create branch. It might already exist.''
          (after_git sh ''git checkout -b fix/automation-framework-compatibility''
            (print ''\<newline>=== Creating branch fix/automation-framework-compatibility ==='' s1))) @ ls"
    using out_after_git by blast
  then have o2: "''Failed to create branch. It might already exist.'' \<in> set (out s2)"
    by (simp add: s2_def create_branch_eq fails_on_not_succeeds [OF assms(2)] print_simps)
  have "git_operations sh s = block (?mid @ [final_status sh]) s2"
    by (simp add: git_operations_def os_chdir_repo [OF assms(1)] e1 e2)
  also have "\<dots> = (case block ?mid s2 of (Inl e, t) \<Rightarrow> (Inl e, t)
                     | (Inr u, t) \<Rightarrow> block [final_status sh] t)"
    by (rule block_append)
  finally have g: "git_operations sh s =
      (case block ?mid s2 of (Inl e, t) \<Rightarrow> (Inl e, t) | (Inr u, t) \<Rightarrow> block [final_status sh] t)" .
  have mid: "moves_on (block ?mid)"
    by (rule moves_on_block)
      (simp add: moves_on_commit1 moves_on_commit2 moves_on_commit3 moves_on_commit4
        moves_on_commit5 moves_on_commit6 moves_on_commit_config)
  obtain r3 s3 where b3: "block ?mid s2 = (r3, s3)"
    by (cases "block ?mid s2") blast
  from mid have "advances s2 (snd (block ?mid s2))"
    by (simp add: moves_on_def del: block.simps)
  with b3 have a3: "advances s2 s3"
    by (simp del: block.simps)
  have "advances s2 (snd (git_operations sh s))"
  proof (cases r3)
    case (Inl e)
    with b3 a3 show ?thesis
      by (simp add: g del: block.simps)
  next
    case (Inr u)
    have "advances s3 (snd (final_status sh s3))"
      using moves_on_final_status [of sh] by (simp add: moves_on_def)
    with Inr b3 a3 show ?thesis
      by (simp add: g block_single del: block.simps) (rule advances_trans)
  qed
  then obtain cs ls' where "calls (snd (git_operations sh s)) = calls s2 @ cs"
    and "out (snd (git_operations sh s)) = out s2 @ ls'"
    by (auto simp: advances_def)
  with c2 o2 have first: "(\<exists>rest. calls (snd (git_operations sh s)) = calls s @ ?three @ rest)
         \<and> ''Failed to create branch. It might already exist.''
             \<in> set (out (snd (git_operations sh s)))"
    by simp
  have second: "fst (git_operations sh s) = Inr ()
        \<and> (\<exists>later. calls (snd (git_operations sh s))
               = calls s @ ?three @ later @ [''git status'', ''git log --oneline -10''])
        \<and> ''\<newline>=== Final git status ==='' \<in> set (out (snd (git_operations sh s)))
        \<and> last (out (snd (git_operations sh s)))
            = ''You can now push with: git push -u origin fix/automation-framework-compatibility''"
    if w: "step3_can_write (world s)" and p: "shell_preserves sh step3_can_write"
      and d: "never_raises_on sh ''git diff --cached --quiet''"
  proof -
    from w have "ready ?s0"
      by (simp add: ready_def)
    with goes_through_check_status [OF p] have "ready (snd (check_status sh ?s0))"
      by (simp add: goes_through_def)
    then have "ready s1"
      by (simp add: e1)
    with goes_through_create_branch [OF p] have "ready (snd (create_branch sh s1))"
      by (simp add: goes_through_def)
    then have r2: "ready s2"
      by (simp add: e2)
    have "goes_through (block ?mid)"
      by (rule goes_through_block)
        (simp add: p d goes_through_commit1 goes_through_commit2 goes_through_commit3
          goes_through_commit4 goes_through_commit5 goes_through_commit6
          goes_through_commit_config)
    with r2 have "fst (block ?mid s2) = Inr ()"
      by (simp add: goes_through_def del: block.simps)
    with b3 have r3: "r3 = Inr ()"
      by (simp del: block.simps)
    with b3 have g': "git_operations sh s = final_status sh s3"
      by (simp add: g block_single del: block.simps)
    from a3 c2 obtain later where c3: "calls s3 = calls s @ ?three @ later"
      by (auto simp: advances_def)
    obtain fl where fl: "out (after_git sh ''git log --oneline -10''
              (after_git sh ''git status'' (print ''\<newline>=== Final git status ==='' s3)))
          = (out s3 @ [''\<newline>=== Final git status ===''] ) @ fl"
      using out_after_git [of sh "''git status''" "print ''\<newline>=== Final git status ==='' s3"]
        out_after_git [of sh "''git log --oneline -10''"
          "after_git sh ''git status'' (print ''\<newline>=== Final git status ==='' s3)"]
      by (auto simp: print_simps)
    have "calls (snd (git_operations sh s))
        = calls s @ ?three @ later @ [''git status'', ''git log --oneline -10'']"
      by (simp add: g' final_status_eq print_simps calls_after_git c3)
    then have "\<exists>later. calls (snd (git_operations sh s))
        = calls s @ ?three @ later @ [''git status'', ''git log --oneline -10'']"
      by blast
    then show ?thesis
      by (simp add: g' final_status_eq print_simps fl)
  qed
  have third: "fst (run_git_commands sh s) = Inr ()"
    by (simp add: run_git_commands_entered [OF assms(1)])
  have fourth: "fst (create_branch sh s') = Inr ()"
    by (simp add: create_branch_eq)
  have fifth: "step3_can_write (world s) \<and> shell_preserves sh step3_can_write
              \<and> never_raises_on sh ''git diff --cached --quiet'' \<longrightarrow>
                fst (git_operations sh s) = Inr ()
                \<and> (\<exists>later. calls (snd (git_operations sh s))
                       = calls s @ ?three @ later @ [''git status'', ''git log --oneline -10''])
                \<and> ''\<newline>=== Final git status ==='' \<in> set (out (snd (git_operations sh s)))
                \<and> last (out (snd (git_operations sh s)))
                    = ''You can now push with: git push -u origin fix/automation-framework-compatibility''"
  proof (intro impI, elim conjE)
    assume "step3_can_write (world s)" and "shell_preserves sh step3_can_write"
      and "never_raises_on sh ''git diff --cached --quiet''"
    then show "fst (git_operations sh s) = Inr ()
                \<and> (\<exists>later. calls (snd (git_operations sh s))
                       = calls s @ ?three @ later @ [''git status'', ''git log --oneline -10''])
                \<and> ''\<newline>=== Final git status ==='' \<in> set (out (snd (git_operations sh s)))
                \<and> last (out (snd (git_operations sh s)))
                    = ''You can now push with: git push -u origin fix/automation-framework-compatibility''"
      by (rule second)
  qed
  show ?thesis
    by (intro conjI)
      (rule first [THEN conjunct1], rule first [THEN conjunct2], rule fourth, rule fifth,
        rule third, rule run_git_commands_calls [OF assms(1)])
qed

theorem branch_exists_is_not_fatal_witness:
  "fst (git_operations branch_exists_shell documented_repo) = Inr ()
   \<and> (\<exists>later. calls (snd (git_operations branch_exists_shell documented_repo))
         = [''git status'', ''git checkout -b fix/automation-framework-compatibility'',
            ''git checkout fix/automation-framework-compatibility'']
             @ later @ [''git status'', ''git log --oneline -10''])
   \<and> ''Failed to create branch. It might already exist.''
       \<in> set (out (snd (git_operations branch_exists_shell documented_repo)))
   \<and> ''\<newline>=== Final git status ===''
       \<in> set (out (snd (git_operations branch_exists_shell documented_repo)))
   \<and> fst (run_git_commands branch_exists_shell documented_repo) = Inr ()
   \<and> calls (snd (run_git_commands branch_exists_shell documented_repo))
       = [''git status'', ''git checkout -b fix/automation-framework-compatibility'',
          ''git branch'']"
proof -
  have a: "fs (world documented_repo) repo_path = Some Dir"
    by (simp add: documented_repo_def in_repo_neq_repo)
  have c: "calls documented_repo = []"
    by (simp add: documented_repo_def)
  have w: "step3_can_write (world documented_repo)"
    by (simp add: step3_can_write_def documented_repo_def in_repo_neq_repo in_repo_eq)
  have p: "shell_preserves (branch_exists_shell :: unit shell) step3_can_write"
    by (simp add: shell_preserves_def branch_exists_shell_def)
  have d: "never_raises_on (branch_exists_shell :: unit shell) ''git diff --cached --quiet''"
    by (simp add: never_raises_on_def branch_exists_shell_def)
  show ?thesis
    using branch_exists_is_not_fatal [OF a fails_on_branch_exists_shell] w p d
    by (simp add: c)
qed

subsection \<open>The gates of the commit steps\<close>

lemma ready_clean_repo_entered: "ready clean_repo_entered"
  by (simp add: ready_def step3_can_write_def clean_repo_entered_def clean_repo_def
      in_repo_eq in_repo_neq_repo)

lemma no_profile_dir_in_clean_repo: "\<not> os_path_exists ''.bash_profile.dir'' clean_repo_entered"
  by (simp add: os_path_exists_def clean_repo_entered_def clean_repo_def resolve_relative
      in_repo_eq in_repo_neq_repo)

text \<open>
  C2 (as stated, it does not hold): the check of step 3 is the other way round. When
  the path it names, \<^verbatim>\<open>.bash_profile.dir\<close>, does not exist, the step is not skipped: its
  \<^verbatim>\<open>git add\<close> and \<^verbatim>\<open>git commit\<close> are invoked.
\<close>

theorem step3_runs_when_path_absent:
  "\<not> os_path_exists ''.bash_profile.dir'' clean_repo_entered
   \<and> calls (snd (commit3 (fixed_shell 0 '''' '''') clean_repo_entered))
       = [''git add .bash_profile.dir/'', git_commit commit_msg3]"
proof -
  have "calls clean_repo_entered = []"
    by (simp add: clean_repo_entered_def clean_repo_def)
  then show ?thesis
    by (simp add: no_profile_dir_in_clean_repo
        commit3_runs [OF no_profile_dir_in_clean_repo ready_clean_repo_entered]
        calls_after_git print_simps)
qed

text \<open>
  C2 (amended): for steps 1, 2, 4, 5 and 6, if the path the step asks about does not
  exist when the step is reached, the step does nothing at all: no command is invoked,
  nothing is printed, nothing is raised, and the next step starts from the same state.
  Step 3 is gated the other way round: it does nothing when \<^verbatim>\<open>.bash_profile.dir\<close>
  exists, and when that path does not exist (and the directory can be created) it
  invokes its \<^verbatim>\<open>git add\<close> and \<^verbatim>\<open>git commit\<close> and returns normally.
\<close>

theorem absent_path_skips_step:
  "(\<not> os_path_exists ''.automation/framework/core.sh'' s \<longrightarrow> commit1 sh s = (Inr (), s))
   \<and> (\<not> os_path_exists ''.automation/auto'' s \<longrightarrow> commit2 sh s = (Inr (), s))
   \<and> (\<not> os_path_exists ''initialize.sh'' s \<longrightarrow> commit4 sh s = (Inr (), s))
   \<and> (\<not> os_path_exists ''.automation/modules/tools.sh'' s \<longrightarrow> commit5 sh s = (Inr (), s))
   \<and> (\<not> os_path_exists ''Makefile'' s \<longrightarrow> commit6 sh s = (Inr (), s))
   \<and> (os_path_exists ''.bash_profile.dir'' s \<longrightarrow> commit3 sh s = (Inr (), s))
   \<and> (\<not> os_path_exists ''.bash_profile.dir'' t \<and> ready t \<longrightarrow>
        fst (commit3 sh t) = Inr ()
        \<and> calls (snd (commit3 sh t))
            = calls t @ [''git add .bash_profile.dir/'', git_commit commit_msg3])"
  by (simp add: commit1_eq commit2_eq commit4_eq commit5_eq commit6_eq commit3_skipped
      commit3_runs calls_after_git print_simps)

theorem absent_path_skips_step_witness:
  "commit1 (fixed_shell 0 '''' '''') profile_dir_repo = (Inr (), profile_dir_repo)
   \<and> commit2 (fixed_shell 0 '''' '''') profile_dir_repo = (Inr (), profile_dir_repo)
   \<and> commit3 (fixed_shell 0 '''' '''') profile_dir_repo = (Inr (), profile_dir_repo)
   \<and> commit4 (fixed_shell 0 '''' '''') profile_dir_repo = (Inr (), profile_dir_repo)
   \<and> commit5 (fixed_shell 0 '''' '''') profile_dir_repo = (Inr (), profile_dir_repo)
   \<and> commit6 (fixed_shell 0 '''' '''') profile_dir_repo = (Inr (), profile_dir_repo)
   \<and> fst (commit3 (fixed_shell 0 '''' '''') clean_repo_entered) = Inr ()"
proof -
  have a: "\<not> os_path_exists ''.automation/framework/core.sh'' profile_dir_repo"
    "\<not> os_path_exists ''.automation/auto'' profile_dir_repo"
    "\<not> os_path_exists ''initialize.sh'' profile_dir_repo"
    "\<not> os_path_exists ''.automation/modules/tools.sh'' profile_dir_repo"
    "\<not> os_path_exists ''Makefile'' profile_dir_repo"
    "os_path_exists ''.bash_profile.dir'' profile_dir_repo"
    by (simp_all add: os_path_exists_def profile_dir_repo_def resolve_relative in_repo_eq
        in_repo_neq_repo)
  show ?thesis
    using absent_path_skips_step [of profile_dir_repo "fixed_shell 0 '''' ''''" clean_repo_entered]
      a no_profile_dir_in_clean_repo ready_clean_repo_entered
    by simp
qed

end
